theory Spec2Isabelle
  imports Main "HOL-Library.Word"
begin

section \<open>Values crossing the bridge\<close>

text \<open>
  Go's \<open>int64\<close> is a 64-bit word read as two's complement (\<open>sint\<close>); \<open>+\<close> and \<open>-\<close> wrap.
  Go's \<open>int\<close> (cursor positions, column indices, IdxNum) is kept as \<open>int\<close>: the code only
  compares it with lengths or increments it below a length.
\<close>

type_synonym int64 = "64 word"

typedecl float64

text \<open>
  Modelled from the spec: the declaration of \<open>vtab.Value\<close> is not under src/. Section 3 of the
  specification gives its variants: null, 64-bit integer, double, text, binary.
\<close>

datatype Value = Null | Integer int64 | Real float64 | Text string | Blob "8 word list"

datatype error = Err string | Panic

subsection \<open>Decimal text of integers (\<open>strconv.Itoa\<close>, \<open>fmt.Sprint\<close> of an integer)\<close>

fun showNat :: "nat \<Rightarrow> string" where
  "showNat n = (if n < 10 then [''0123456789'' ! n]
                else showNat (n div 10) @ [''0123456789'' ! (n mod 10)])"

declare showNat.simps [simp del]

definition showInt :: "int \<Rightarrow> string" where
  "showInt i = (if i < 0 then CHR ''-'' # showNat (nat (- i)) else showNat (nat i))"

definition Itoa :: "int \<Rightarrow> string" where
  "Itoa i = showInt i"

fun joinSpace :: "string list \<Rightarrow> string" where
  "joinSpace [] = []"
| "joinSpace [s] = s"
| "joinSpace (s # t # ts) = s @ '' '' @ joinSpace (t # ts)"

text \<open>
  \<open>fmt.Sprint\<close> of one value: \<open>nil\<close> prints as \<open><nil>\<close>, an integer in decimal, a string as
  itself, a byte slice as \<open>[b1 b2 ...]\<close>. The text of a float64 is floating-point formatting
  and is taken as the parameter \<open>ff\<close>.
\<close>

fun Sprint :: "(float64 \<Rightarrow> string) \<Rightarrow> Value \<Rightarrow> string" where
  "Sprint ff Null = ''<nil>''"
| "Sprint ff (Integer i) = showInt (sint i)"
| "Sprint ff (Real r) = ff r"
| "Sprint ff (Text s) = s"
| "Sprint ff (Blob bs) = ''['' @ joinSpace (map (\<lambda>b. showNat (unat b)) bs) @ '']''"

section \<open>The in-memory Updater table of the tests (\<open>updaterTableX\<close>)\<close>

record updRow =
  id_f :: int64
  val_f :: string

record updaterTableX =
  u_rows :: "updRow list"
  u_nextID :: int64

text \<open>\<open>updaterModuleX.Create\<close>: no rows, counter at 1.\<close>

definition updaterModuleX_Create :: updaterTableX where
  "updaterModuleX_Create = \<lparr>u_rows = [], u_nextID = 1\<rparr>"

text \<open>\<open>val, _ := cols[0].(string)\<close>: the string of a text value, the empty string otherwise.\<close>

fun asString :: "Value \<Rightarrow> string" where
  "asString (Text s) = s"
| "asString _ = []"

text \<open>
  \<open>updaterTableX.Insert\<close>. The result carries the table and the rowid written back through
  the pointer. \<open>cols[0]\<close> on an empty slice panics.
\<close>

definition updaterTableX_Insert ::
  "updaterTableX \<Rightarrow> Value list \<Rightarrow> int64 \<Rightarrow> error + (updaterTableX \<times> int64)" where
  "updaterTableX_Insert t cols rowid =
     (case cols of
        [] \<Rightarrow> Inl Panic
      | c # _ \<Rightarrow>
          (let v = asString c;
               i = (if rowid = 0 then u_nextID t else rowid)
           in Inr (\<lparr>u_rows = u_rows t @ [\<lparr>id_f = i, val_f = v\<rparr>], u_nextID = i + 1\<rparr>, i)))"

text \<open>
  The loop of \<open>updaterTableX.Update\<close> over the rows: the first row whose id is \<open>oldRowid\<close>
  gets the new value and, for a non-nil, non-zero \<open>newRowid\<close> other than \<open>oldRowid\<close>, the new id.
\<close>

fun update_rows :: "updRow list \<Rightarrow> int64 \<Rightarrow> Value list \<Rightarrow> int64 option \<Rightarrow> error + updRow list" where
  "update_rows [] oldRowid cols newRowid =
     Inl (Err (''row '' @ showInt (sint oldRowid) @ '' not found''))"
| "update_rows (r # rs) oldRowid cols newRowid =
     (if id_f r = oldRowid then
        (case cols of
           [] \<Rightarrow> Inl Panic
         | c # _ \<Rightarrow>
             Inr (\<lparr>id_f = (case newRowid of
                               None \<Rightarrow> id_f r
                             | Some n \<Rightarrow> if n \<noteq> 0 \<and> n \<noteq> oldRowid then n else id_f r),
                      val_f = asString c\<rparr> # rs))
      else (case update_rows rs oldRowid cols newRowid of
              Inl e \<Rightarrow> Inl e
            | Inr rs' \<Rightarrow> Inr (r # rs')))"

definition updaterTableX_Update ::
  "updaterTableX \<Rightarrow> int64 \<Rightarrow> Value list \<Rightarrow> int64 option \<Rightarrow> error + updaterTableX" where
  "updaterTableX_Update t oldRowid cols newRowid =
     (case update_rows (u_rows t) oldRowid cols newRowid of
        Inl e \<Rightarrow> Inl e
      | Inr rs \<Rightarrow> Inr (t\<lparr>u_rows := rs\<rparr>))"

text \<open>The loop of \<open>updaterTableX.Delete\<close>: the first row whose id is \<open>oldRowid\<close> is removed.\<close>

fun delete_rows :: "updRow list \<Rightarrow> int64 \<Rightarrow> error + updRow list" where
  "delete_rows [] oldRowid = Inl (Err (''row '' @ showInt (sint oldRowid) @ '' not found''))"
| "delete_rows (r # rs) oldRowid =
     (if id_f r = oldRowid then Inr rs
      else (case delete_rows rs oldRowid of
              Inl e \<Rightarrow> Inl e
            | Inr rs' \<Rightarrow> Inr (r # rs')))"

definition updaterTableX_Delete :: "updaterTableX \<Rightarrow> int64 \<Rightarrow> error + updaterTableX" where
  "updaterTableX_Delete t oldRowid =
     (case delete_rows (u_rows t) oldRowid of
        Inl e \<Rightarrow> Inl e
      | Inr rs \<Rightarrow> Inr (t\<lparr>u_rows := rs\<rparr>))"

text \<open>
  A statement sequence against the table: inserts with the zero rowid sentinel and deletes.
  A failed call leaves the table as it was. The run returns the final table and the rowids
  the inserts assigned, in order.
\<close>

datatype uop = SentinelInsert "Value list" | DeleteRow int64

fun run_uops :: "updaterTableX \<Rightarrow> uop list \<Rightarrow> updaterTableX \<times> int64 list" where
  "run_uops t [] = (t, [])"
| "run_uops t (SentinelInsert cols # ops) =
     (case updaterTableX_Insert t cols 0 of
        Inl e \<Rightarrow> run_uops t ops
      | Inr (t', i) \<Rightarrow> (case run_uops t' ops of (t'', is) \<Rightarrow> (t'', i # is)))"
| "run_uops t (DeleteRow r # ops) =
     (case updaterTableX_Delete t r of
        Inl e \<Rightarrow> run_uops t ops
      | Inr t' \<Rightarrow> run_uops t' ops)"


section \<open>Library functions the providers call\<close>

subsection \<open>\<open>strconv.Atoi\<close>\<close>

definition isDigit :: "char \<Rightarrow> bool" where
  "isDigit c = (48 \<le> (of_char c :: nat) \<and> (of_char c :: nat) \<le> 57)"

fun digitsVal :: "string \<Rightarrow> nat \<Rightarrow> nat option" where
  "digitsVal [] acc = Some acc"
| "digitsVal (c # cs) acc =
     (if isDigit c then digitsVal cs (acc * 10 + (of_char c - 48)) else None)"

text \<open>
  An optional sign, then one or more decimal digits and nothing else; a value outside the
  64-bit \<open>int\<close> range is an error. \<open>None\<close> stands for the non-nil error.
\<close>

definition Atoi :: "string \<Rightarrow> int option" where
  "Atoi s =
     (let neg = (s \<noteq> [] \<and> hd s = CHR ''-'');
          ds = (if s \<noteq> [] \<and> (hd s = CHR ''-'' \<or> hd s = CHR ''+'') then tl s else s)
      in if ds = [] then None
         else (case digitsVal ds 0 of
                 None \<Rightarrow> None
               | Some n \<Rightarrow>
                   (let v = (if neg then - int n else int n)
                    in if - (2 ^ 63) \<le> v \<and> v < 2 ^ 63 then Some v else None)))"

subsection \<open>\<open>strings.Contains\<close> and \<open>bytes.ReplaceAll\<close>\<close>

fun hasPrefix :: "string \<Rightarrow> string \<Rightarrow> bool" where
  "hasPrefix s [] = True"
| "hasPrefix [] (p # ps) = False"
| "hasPrefix (c # cs) (p # ps) = (c = p \<and> hasPrefix cs ps)"

fun Contains :: "string \<Rightarrow> string \<Rightarrow> bool" where
  "Contains [] sub = (sub = [])"
| "Contains (c # cs) sub = (hasPrefix (c # cs) sub \<or> Contains cs sub)"

text \<open>
  \<open>bytes.ReplaceAll s old new\<close> for a non-empty \<open>old\<close>: the non-overlapping occurrences,
  left to right. The providers only call it with the UTF-8 text of one rune or with one
  quote character as \<open>old\<close>, never with an empty pattern; for an empty pattern the model
  returns \<open>s\<close>.
\<close>

function ReplaceAll :: "string \<Rightarrow> string \<Rightarrow> string \<Rightarrow> string" where
  "ReplaceAll s old new =
     (if old = [] \<or> s = [] then s
      else if hasPrefix s old then new @ ReplaceAll (drop (length old) s) old new
      else hd s # ReplaceAll (tl s) old new)"
  by pat_completeness auto
termination
  by (relation "measure (\<lambda>(s, old, new). length s)") auto

declare ReplaceAll.simps [simp del]

subsection \<open>\<open>string(rune)\<close>: the UTF-8 text of a code point\<close>

type_synonym rune = int

definition runeError :: string where
  "runeError = [char_of (239::nat), char_of (191::nat), char_of (189::nat)]"

definition runeString :: "rune \<Rightarrow> string" where
  "runeString r =
     (if r < 0 then runeError
      else if r < 128 then [char_of r]
      else if r < 2048 then [char_of (192 + r div 64), char_of (128 + r mod 64)]
      else if 55296 \<le> r \<and> r \<le> 57343 then runeError
      else if r < 65536 then
        [char_of (224 + r div 4096), char_of (128 + (r div 64) mod 64), char_of (128 + r mod 64)]
      else if r \<le> 1114111 then
        [char_of (240 + r div 262144), char_of (128 + (r div 4096) mod 64),
         char_of (128 + (r div 64) mod 64), char_of (128 + r mod 64)]
      else runeError)"

section \<open>Planning structures\<close>

text \<open>
  Modelled from the spec: the declarations of \<open>vtab.ConstraintOp\<close>, \<open>vtab.Constraint\<close> and
  \<open>vtab.IndexInfo\<close> are not under src/. Section 3 of the specification lists the operator
  codes and the fields; the fields kept here are the ones the providers under src/ read
  or write. Codes the list does not name are \<open>OpOther\<close>.
\<close>

datatype ConstraintOp =
  OpEQ | OpGT | OpLE | OpLT | OpGE | OpMATCH | OpLIKE | OpGLOB | OpREGEXP
  | OpISNULL | OpISNOTNULL | OpIS | OpNE | OpOther nat

text \<open>
  Modelled from the spec: \<open>vtab.Constraint\<close>, whose declaration is not under src/, with the
  fields of section 3. \<open>ArgIndex\<close> and \<open>Omit\<close> are the outputs \<open>BestIndex\<close> writes.
\<close>

record Constraint =
  Column :: int
  Op :: ConstraintOp
  Usable :: bool
  ArgIndex :: int
  Omit :: bool

text \<open>
  Modelled from the spec: \<open>vtab.IndexInfo\<close>, whose declaration is not under src/, with the
  fields of section 3 that the providers under src/ use: the constraints and the plan tags.
\<close>

record IndexInfo =
  Constraints :: "Constraint list"
  IdxNum :: int
  IdxStr :: string


section \<open>\<open>BestIndex\<close> of the test and example tables\<close>

text \<open>\<open>argIndexTable.BestIndex\<close>: every usable EQ constraint gets the next slot, from 0.\<close>

fun argIndex_assign :: "int \<Rightarrow> Constraint list \<Rightarrow> Constraint list" where
  "argIndex_assign next [] = []"
| "argIndex_assign next (c # cs) =
     (if \<not> Usable c \<or> Op c \<noteq> OpEQ then c # argIndex_assign next cs
      else c\<lparr>ArgIndex := next\<rparr> # argIndex_assign (next + 1) cs)"

definition argIndexTable_BestIndex :: "IndexInfo \<Rightarrow> error + IndexInfo" where
  "argIndexTable_BestIndex info =
     Inr (info\<lparr>Constraints := argIndex_assign 0 (Constraints info)\<rparr>)"

text \<open>\<open>echoTable.BestIndex\<close>: the first usable EQ or LIKE constraint on column 0.\<close>

fun echo_mark :: "Constraint list \<Rightarrow> Constraint list \<times> int option" where
  "echo_mark [] = ([], None)"
| "echo_mark (c # cs) =
     (if \<not> Usable c \<or> Column c \<noteq> 0
      then (case echo_mark cs of (cs', r) \<Rightarrow> (c # cs', r))
      else if Op c = OpEQ then (c\<lparr>ArgIndex := 0, Omit := True\<rparr> # cs, Some 1)
      else if Op c = OpLIKE then (c\<lparr>ArgIndex := 0\<rparr> # cs, Some 2)
      else (case echo_mark cs of (cs', r) \<Rightarrow> (c # cs', r)))"

definition echoTable_BestIndex :: "IndexInfo \<Rightarrow> error + IndexInfo" where
  "echoTable_BestIndex info =
     (case echo_mark (Constraints info) of
        (cs', Some n) \<Rightarrow> Inr (info\<lparr>Constraints := cs', IdxNum := n\<rparr>)
      | (cs', None) \<Rightarrow> Inr (info\<lparr>IdxNum := 0\<rparr>))"

text \<open>\<open>overflowIdxTable.BestIndex\<close>: \<open>info.IdxNum = math.MaxInt32 + 1\<close>.\<close>

definition overflowIdxTable_BestIndex :: "IndexInfo \<Rightarrow> error + IndexInfo" where
  "overflowIdxTable_BestIndex info = Inr (info\<lparr>IdxNum := 2147483647 + 1\<rparr>)"

section \<open>The bridge dispatcher\<close>

text \<open>
  Modelled from the spec: the trampolines of package \<open>vtab\<close> that call \<open>BestIndex\<close> and
  \<open>Filter\<close> for the engine are not under src/; only providers and tests are. Sections 3,
  4.3, 4.6, 6 and 7 of the specification say: the plan of a provider is checked before it is
  delivered; an \<open>IdxNum\<close> outside the signed 32-bit range is rejected with an error naming
  the value and the expected type; a malformed \<open>ArgIndex\<close> assignment (slots not a dense
  0-based sequence) is a planning error; a failure of \<open>BestIndex\<close> itself aborts with the
  provider's error.

  Which \<open>ArgIndex\<close> asks for a value follows the providers and tests under src/:
  \<open>argIndexTable.BestIndex\<close> numbers its constraints from 0 and the test
  \<open>TestVtabConstraintArgIndex\<close> demands both values in \<open>Filter\<close>, and \<open>echoTable.BestIndex\<close>
  sets \<open>ArgIndex = 0\<close> "so Filter receives RHS in vals[0]". So every \<open>ArgIndex \<ge> 0\<close> is a
  slot, and a constraint without a slot carries a negative \<open>ArgIndex\<close>.
\<close>

definition fitsInt32 :: "int \<Rightarrow> bool" where
  "fitsInt32 n = (- (2 ^ 31) \<le> n \<and> n < 2 ^ 31)"

text \<open>
  Modelled from the spec: the slots a \<open>BestIndex\<close> call has assigned (section 3), in the
  order of the constraints.
\<close>

definition requestedSlots :: "Constraint list \<Rightarrow> int list" where
  "requestedSlots cs = map ArgIndex (filter (\<lambda>c. 0 \<le> ArgIndex c) cs)"

text \<open>
  Modelled from the spec: the slots are well-formed when they are distinct and each is below
  their number (section 3: a dense 0-based sequence).
\<close>

definition denseArgIndex :: "Constraint list \<Rightarrow> bool" where
  "denseArgIndex cs =
     (distinct (requestedSlots cs) \<and>
      list_all (\<lambda>k. k < int (length (requestedSlots cs))) (requestedSlots cs))"

text \<open>
  Modelled from the spec: the dispatcher's call of \<open>BestIndex\<close> (sections 4.3, 4.6 and 7): the
  provider's error, or a planning error for an \<open>IdxNum\<close> out of range or malformed slots, or
  the plan as the provider left it.
\<close>

definition dispatchBestIndex ::
  "(IndexInfo \<Rightarrow> error + IndexInfo) \<Rightarrow> IndexInfo \<Rightarrow> error + IndexInfo" where
  "dispatchBestIndex bestIndex draft =
     (case bestIndex draft of
        Inl e \<Rightarrow> Inl e
      | Inr info \<Rightarrow>
          if \<not> fitsInt32 (IdxNum info)
          then Inl (Err (''vtab: BestIndex: IdxNum '' @ showInt (IdxNum info)
                         @ '' does not fit in int32''))
          else if \<not> denseArgIndex (Constraints info)
          then Inl (Err ''vtab: BestIndex: ArgIndex slots are not a dense 0-based sequence'')
          else Inr info)"

text \<open>
  Modelled from the spec: the argument vector the dispatcher hands to \<open>Filter\<close> (section
  4.4): the comparison values of the constraints that have a slot, ordered by \<open>ArgIndex\<close>.
  \<open>rhs\<close> lists the comparison value of each constraint, in the order of the constraints.
\<close>

definition filterArgv :: "Constraint list \<Rightarrow> Value list \<Rightarrow> Value list" where
  "filterArgv cs rhs =
     map snd (sort_key fst (filter (\<lambda>p. 0 \<le> fst p) (zip (map ArgIndex cs) rhs)))"

text \<open>
  Modelled from the spec: what \<open>Filter\<close> is called with for a delivered plan (section 4.4):
  the plan's \<open>IdxNum\<close> and \<open>IdxStr\<close> and the argument vector.
\<close>

definition dispatchFilter :: "IndexInfo \<Rightarrow> Value list \<Rightarrow> int \<times> string \<times> Value list" where
  "dispatchFilter info rhs = (IdxNum info, IdxStr info, filterArgv (Constraints info) rhs)"

text \<open>
  The assertions of \<open>TestVtabConstraintArgIndex\<close> on the values \<open>argIndexCursor.Filter\<close>
  captured: two values, both \<open>int64\<close>, 10 and then 20.
\<close>

definition TestVtabConstraintArgIndex_accepts :: "Value list \<Rightarrow> bool" where
  "TestVtabConstraintArgIndex_accepts vals =
     (length vals = 2 \<and> vals ! 0 = Integer 10 \<and> vals ! 1 = Integer 20)"

text \<open>
  The check of \<open>TestVtabIdxNumOverflowError\<close> on the error text of the failed query.
\<close>

definition TestVtabIdxNumOverflowError_accepts :: "string \<Rightarrow> bool" where
  "TestVtabIdxNumOverflowError_accepts msg = (Contains msg ''IdxNum'' \<and> Contains msg ''int32'')"


section \<open>The CSV provider\<close>

record csvTable =
  t_file :: string
  t_cols :: "string list"
  t_rows :: "string list list"
  t_nextID :: int64
  t_header :: bool
  t_delimiter :: rune
  t_quote :: rune

record csvCursor =
  c_rows :: "string list list"
  c_pos :: int

text \<open>
  The file system is a map from names to contents. \<open>os.ReadFile\<close> fails on a missing name;
  \<open>os.WriteFile\<close> and \<open>os.Rename\<close> are taken to succeed.

  Package \<open>encoding/csv\<close> is not code of this repository. Its reader and writer are the
  parameters \<open>rd\<close> and \<open>wr\<close>: \<open>rd comma data\<close> is the list of the records the reader returns
  from \<open>data\<close>, one per \<open>Read\<close>, up to the first error, and that error (none when the reader
  comes to the end of the text); \<open>wr comma records\<close> is the text of the records or the
  writer's error.
\<close>

type_synonym files = "string \<rightharpoonup> string"
type_synonym csvReader = "rune \<Rightarrow> string \<Rightarrow> string list list \<times> error option"
type_synonym csvWriter = "rune \<Rightarrow> string list list \<Rightarrow> error + string"

text \<open>The padding and truncation of a record to the width of the header in \<open>loadCSV\<close>.\<close>

definition fitRow :: "nat \<Rightarrow> string list \<Rightarrow> string list" where
  "fitRow n r =
     (if length r < n then r @ replicate (n - length r) []
      else if length r > n then take n r
      else r)"

text \<open>The text of an error, as \<open>%w\<close> prints it.\<close>

fun errorText :: "error \<Rightarrow> string" where
  "errorText (Err m) = m"
| "errorText Panic = ''panic''"

text \<open>
  \<open>loadCSV\<close>. With a header the first \<open>Read\<close> names the columns, and its error (the end
  of the text included) is returned behind \<open>csv: read header:\<close>; \<open>ReadAll\<close> then gives the
  rows or its error. Without a header \<open>ReadAll\<close> gives all records or its error, the columns
  are \<open>c1, c2, ...\<close> for the width of the first record, and a file without records is an
  error. The counter is set to the number of rows plus one.
\<close>

definition loadCSV :: "csvReader \<Rightarrow> files \<Rightarrow> string \<Rightarrow> rune \<Rightarrow> bool \<Rightarrow> rune \<Rightarrow> error + csvTable" where
  "loadCSV rd fs file delim header quote =
     (case fs file of
        None \<Rightarrow> Inl (Err (''open '' @ file @ '': no such file or directory''))
      | Some data0 \<Rightarrow>
          (let data = (if quote \<noteq> 0 \<and> quote \<noteq> 34
                       then ReplaceAll data0 (runeString quote) [CHR 0x22] else data0);
               comma = (if delim \<noteq> 0 then delim else 44)
           in case rd comma data of
                (recs, err) \<Rightarrow>
                  if header then
                    (case recs of
                       [] \<Rightarrow>
                         (case err of
                            None \<Rightarrow> Inl (Err ''csv: read header: EOF'')
                          | Some e \<Rightarrow> Inl (Err (''csv: read header: '' @ errorText e)))
                     | hdr # rows \<Rightarrow>
                         (case err of
                            Some e \<Rightarrow> Inl e
                          | None \<Rightarrow>
                              Inr \<lparr>t_file = file, t_cols = hdr,
                                   t_rows = map (fitRow (length hdr)) rows,
                                   t_nextID = of_nat (length rows + 1),
                                   t_header = header, t_delimiter = delim, t_quote = quote\<rparr>))
                  else
                    (case err of
                       Some e \<Rightarrow> Inl e
                     | None \<Rightarrow>
                         (case recs of
                            [] \<Rightarrow> Inl (Err ''csv: empty file with header=false'')
                          | r0 # _ \<Rightarrow>
                              Inr \<lparr>t_file = file,
                                   t_cols = map (\<lambda>i. ''c'' @ showNat (i + 1)) [0..<length r0],
                                   t_rows = map (fitRow (length r0)) recs,
                                   t_nextID = of_nat (length recs + 1),
                                   t_header = header, t_delimiter = delim, t_quote = quote\<rparr>))))"




text \<open>
  \<open>csvTable.BestIndex\<close>: the first usable EQ constraint on a declared column is marked
  (\<open>ArgIndex = 0\<close>, \<open>Omit = true\<close>) and ends the loop; the result is the constraints after the
  loop and the column of the marked one, if any.
\<close>

fun csv_mark :: "nat \<Rightarrow> Constraint list \<Rightarrow> Constraint list \<times> int option" where
  "csv_mark n [] = ([], None)"
| "csv_mark n (c # cs) =
     (if \<not> Usable c \<or> Op c \<noteq> OpEQ \<or> Column c < 0 \<or> Column c \<ge> int n
      then (case csv_mark n cs of (cs', r) \<Rightarrow> (c # cs', r))
      else (c\<lparr>ArgIndex := 0, Omit := True\<rparr> # cs, Some (Column c)))"

definition csvTable_BestIndex :: "csvTable \<Rightarrow> IndexInfo \<Rightarrow> error + IndexInfo" where
  "csvTable_BestIndex t info =
     (case csv_mark (length (t_cols t)) (Constraints info) of
        (cs', Some col) \<Rightarrow> Inr (info\<lparr>Constraints := cs', IdxNum := 1, IdxStr := Itoa col\<rparr>)
      | (cs', None) \<Rightarrow> Inr (info\<lparr>IdxNum := 0\<rparr>))"

text \<open>
  \<open>csvTable.flush\<close>: the header (if any) and the rows are written to a buffer, the quote
  character is put back, the text goes to \<open>file.tmp\<close>, which is then renamed to \<open>file\<close>. An
  error of the writer returns before any file is touched.
\<close>

definition flush :: "csvWriter \<Rightarrow> csvTable \<Rightarrow> files \<Rightarrow> error option \<times> files" where
  "flush wr t fs =
     (let comma = (if t_delimiter t \<noteq> 0 then t_delimiter t else 44);
          recs = (if t_header t then t_cols t # t_rows t else t_rows t)
      in case wr comma recs of
           Inl e \<Rightarrow> (Some e, fs)
         | Inr out0 \<Rightarrow>
             (let out = (if t_quote t \<noteq> 0 \<and> t_quote t \<noteq> 34
                         then ReplaceAll out0 [CHR 0x22] (runeString (t_quote t)) else out0);
                  tmp = t_file t @ ''.tmp'';
                  fs1 = fs(tmp \<mapsto> out)
              in (None, (fs1(tmp := None))(t_file t \<mapsto> out))))"

text \<open>\<open>valuesToStrings\<close>: \<open>n\<close> strings; a missing or nil value leaves the empty string.\<close>

definition valuesToStrings :: "(float64 \<Rightarrow> string) \<Rightarrow> Value list \<Rightarrow> nat \<Rightarrow> string list" where
  "valuesToStrings ff vals n =
     map (\<lambda>i. if i < length vals
               then (if vals ! i = Null then [] else Sprint ff (vals ! i))
               else []) [0..<n]"


definition csvTable_Update ::
  "(float64 \<Rightarrow> string) \<Rightarrow> csvWriter \<Rightarrow> csvTable \<Rightarrow> files \<Rightarrow> int64 \<Rightarrow> Value list \<Rightarrow> int64 option
   \<Rightarrow> error option \<times> csvTable \<times> files" where
  "csvTable_Update ff wr t fs oldRowid cols newRowid =
     (let idx = sint (oldRowid - 1)
      in if idx < 0 \<or> idx \<ge> int (length (t_rows t))
         then (Some (Err (''csv: rowid '' @ showInt (sint oldRowid) @ '' out of range'')), t, fs)
         else
           (let rec = valuesToStrings ff cols (length (t_cols t));
                rows1 = (t_rows t)[nat idx := rec];
                rows2 = (case newRowid of
                           None \<Rightarrow> rows1
                         | Some n \<Rightarrow>
                             if n \<noteq> 0 \<and> n \<noteq> oldRowid then
                               (let nidx = sint (n - 1)
                                in if nidx \<ge> 0 \<and> nidx < int (length rows1)
                                   then rows1[nat idx := rows1 ! nat nidx, nat nidx := rows1 ! nat idx]
                                   else rows1)
                             else rows1);
                t' = t\<lparr>t_rows := rows2\<rparr>
            in case flush wr t' fs of (e, fs') \<Rightarrow> (e, t', fs')))"


subsection \<open>The cursor\<close>

text \<open>
  The cursor points to its table; the methods that read the table take it as an argument.
  \<open>Filter\<close>, \<open>Next\<close> and \<open>Close\<close> return the error (always nil) and the cursor.
\<close>

definition csvTable_Open :: "csvTable \<Rightarrow> csvCursor" where
  "csvTable_Open t = \<lparr>c_rows = t_rows t, c_pos = 0\<rparr>"

definition csvCursor_Filter ::
  "(float64 \<Rightarrow> string) \<Rightarrow> csvTable \<Rightarrow> csvCursor \<Rightarrow> int \<Rightarrow> string \<Rightarrow> Value list
   \<Rightarrow> error option \<times> csvCursor" where
  "csvCursor_Filter ff t c idxNum idxStr vals =
     (let c1 = c\<lparr>c_pos := 0, c_rows := t_rows t\<rparr>
      in if idxNum = 1 then
           (case Atoi idxStr of
              None \<Rightarrow> (None, c1)
            | Some col \<Rightarrow>
                if col < 0 \<or> col \<ge> int (length (t_cols t)) then (None, c1)
                else (case vals of
                        [] \<Rightarrow> (None, c1)
                      | v # _ \<Rightarrow>
                          (None, c1\<lparr>c_rows :=
                             filter (\<lambda>r. col < int (length r) \<and> r ! nat col = Sprint ff v)
                               (c_rows c1)\<rparr>)))
         else (None, c1))"

definition csvCursor_Next :: "csvCursor \<Rightarrow> error option \<times> csvCursor" where
  "csvCursor_Next c =
     (if c_pos c < int (length (c_rows c)) then (None, c\<lparr>c_pos := c_pos c + 1\<rparr>) else (None, c))"

definition csvCursor_Eof :: "csvCursor \<Rightarrow> bool" where
  "csvCursor_Eof c = (c_pos c \<ge> int (length (c_rows c)))"

text \<open>
  \<open>csvCursor.Column\<close>: past the end, or for a column index at or above the number of
  declared columns, the result is \<open>nil, nil\<close>; otherwise \<open>c.rows[c.pos][col]\<close>, which panics
  on a negative index or one outside the row.
\<close>

definition csvCursor_Column :: "csvTable \<Rightarrow> csvCursor \<Rightarrow> int \<Rightarrow> error + Value" where
  "csvCursor_Column t c col =
     (if c_pos c \<ge> int (length (c_rows c)) \<or> col \<ge> int (length (t_cols t)) then Inr Null
      else if c_pos c < 0 \<or> col < 0 \<or> col \<ge> int (length (c_rows c ! nat (c_pos c))) then Inl Panic
      else Inr (Text (c_rows c ! nat (c_pos c) ! nat col)))"

definition csvCursor_Rowid :: "csvCursor \<Rightarrow> error + int64" where
  "csvCursor_Rowid c = Inr (word_of_int (c_pos c + 1))"

definition csvCursor_Close :: "csvCursor \<Rightarrow> error option \<times> csvCursor" where
  "csvCursor_Close c = (None, c)"

text \<open>
  The rows a scan yields: while \<open>Eof\<close> is false the engine reads every declared column with
  \<open>Column\<close> and calls \<open>Next\<close>.
\<close>

function csv_scan :: "csvTable \<Rightarrow> csvCursor \<Rightarrow> (error + Value) list list" where
  "csv_scan t c =
     (if csvCursor_Eof c then []
      else map (\<lambda>col. csvCursor_Column t c (int col)) [0..<length (t_cols t)]
           # csv_scan t (snd (csvCursor_Next c)))"
  by pat_completeness auto
termination
  by (relation "measure (\<lambda>(t, c). nat (int (length (c_rows c)) - c_pos c))")
     (auto simp: csvCursor_Eof_def csvCursor_Next_def)

declare csv_scan.simps [simp del]


section \<open>The fixed-data cursors\<close>

subsection \<open>\<open>dummyCursor\<close> (the tests)\<close>

record dummyRow =
  d_rowid :: int64
  d_val :: string

record dummyCursor =
  d_rows :: "dummyRow list"
  d_pos :: int

definition dummyTable_Open :: dummyCursor where
  "dummyTable_Open = \<lparr>d_rows = [], d_pos = 0\<rparr>"

definition dummyCursor_Filter ::
  "dummyCursor \<Rightarrow> int \<Rightarrow> string \<Rightarrow> Value list \<Rightarrow> error option \<times> dummyCursor" where
  "dummyCursor_Filter c idxNum idxStr vals =
     (if idxNum = 1
      then (None, \<lparr>d_rows = [\<lparr>d_rowid = 1, d_val = ''alpha''\<rparr>, \<lparr>d_rowid = 2, d_val = ''beta''\<rparr>],
                   d_pos = 0\<rparr>)
      else (None, \<lparr>d_rows = [\<lparr>d_rowid = 1, d_val = ''unexpected''\<rparr>], d_pos = 0\<rparr>))"

definition dummyCursor_Next :: "dummyCursor \<Rightarrow> error option \<times> dummyCursor" where
  "dummyCursor_Next c =
     (if d_pos c < int (length (d_rows c)) then (None, c\<lparr>d_pos := d_pos c + 1\<rparr>) else (None, c))"

definition dummyCursor_Eof :: "dummyCursor \<Rightarrow> bool" where
  "dummyCursor_Eof c = (d_pos c \<ge> int (length (d_rows c)))"

definition dummyCursor_Column :: "dummyCursor \<Rightarrow> int \<Rightarrow> error + Value" where
  "dummyCursor_Column c col =
     (if d_pos c < 0 \<or> d_pos c \<ge> int (length (d_rows c)) then Inr Null
      else if col = 0 then Inr (Text (d_val (d_rows c ! nat (d_pos c))))
      else Inr Null)"

definition dummyCursor_Close :: "dummyCursor \<Rightarrow> error option \<times> dummyCursor" where
  "dummyCursor_Close c = (None, \<lparr>d_rows = [], d_pos = 0\<rparr>)"

subsection \<open>\<open>echoCursor\<close>, \<open>matchCursor\<close> and \<open>reCursor\<close> (the examples)\<close>

text \<open>The three cursors have the same fields: the rows of the scan and a position.\<close>

record strCursor =
  s_rows :: "string list"
  s_pos :: int

definition echoTable_Open :: strCursor where
  "echoTable_Open = \<lparr>s_rows = [''alpha'', ''beta'', ''alpine''], s_pos = 0\<rparr>"

definition echoCursor_Filter ::
  "strCursor \<Rightarrow> int \<Rightarrow> string \<Rightarrow> Value list \<Rightarrow> error option \<times> strCursor" where
  "echoCursor_Filter c idxNum idxStr vals =
     (let all = [''alpha'', ''beta'', ''alpine''];
          rows =
            (if idxNum = 1 then
               (if length vals = 1
                then filter (\<lambda>s. s = asString (vals ! 0)) all
                else all)
             else if idxNum = 2 then
               (if length vals = 1
                then (let pat = asString (vals ! 0);
                          prefix = (if pat \<noteq> [] \<and> last pat = CHR ''%'' then butlast pat else pat)
                      in filter (\<lambda>s. prefix = [] \<or>
                                      (length s \<ge> length prefix \<and> take (length prefix) s = prefix)) all)
                else all)
             else all)
      in (None, \<lparr>s_rows = rows, s_pos = 0\<rparr>))"

definition echoCursor_Next :: "strCursor \<Rightarrow> error option \<times> strCursor" where
  "echoCursor_Next c =
     (if s_pos c < int (length (s_rows c)) then (None, c\<lparr>s_pos := s_pos c + 1\<rparr>) else (None, c))"

definition echoCursor_Eof :: "strCursor \<Rightarrow> bool" where
  "echoCursor_Eof c = (s_pos c \<ge> int (length (s_rows c)))"

text \<open>\<open>echoCursor.Column\<close>; \<open>c.rows[c.pos]\<close> panics on a negative position.\<close>

definition echoCursor_Column :: "strCursor \<Rightarrow> int \<Rightarrow> error + Value" where
  "echoCursor_Column c col =
     (if col = 0 \<and> s_pos c < int (length (s_rows c))
      then (if s_pos c < 0 then Inl Panic else Inr (Text (s_rows c ! nat (s_pos c))))
      else Inr Null)"

definition echoCursor_Close :: "strCursor \<Rightarrow> error option \<times> strCursor" where
  "echoCursor_Close c = (None, c)"

definition matchTable_Open :: strCursor where
  "matchTable_Open = \<lparr>s_rows = [''alpha'', ''beta'', ''alpine'', ''match'', ''atlas''], s_pos = 0\<rparr>"

text \<open>\<open>strings.ToLower\<close> is the parameter \<open>toLower\<close>.\<close>

definition matchCursor_Filter ::
  "(string \<Rightarrow> string) \<Rightarrow> strCursor \<Rightarrow> int \<Rightarrow> string \<Rightarrow> Value list \<Rightarrow> error option \<times> strCursor" where
  "matchCursor_Filter toLower c idxNum idxStr vals =
     (let all = [''alpha'', ''beta'', ''alpine'', ''match'', ''atlas''];
          rows = (if idxNum = 20 \<and> length vals = 1
                  then (let term = toLower (asString (vals ! 0))
                        in filter (\<lambda>s. Contains (toLower s) term) all)
                  else all)
      in (None, \<lparr>s_rows = rows, s_pos = 0\<rparr>))"

definition matchCursor_Next :: "strCursor \<Rightarrow> error option \<times> strCursor" where
  "matchCursor_Next c =
     (if s_pos c < int (length (s_rows c)) then (None, c\<lparr>s_pos := s_pos c + 1\<rparr>) else (None, c))"

definition matchCursor_Eof :: "strCursor \<Rightarrow> bool" where
  "matchCursor_Eof c = (s_pos c \<ge> int (length (s_rows c)))"

definition matchCursor_Close :: "strCursor \<Rightarrow> error option \<times> strCursor" where
  "matchCursor_Close c = (None, c)"

definition reTable_Open :: strCursor where
  "reTable_Open = \<lparr>s_rows = [''alpha'', ''beta'', ''alpine'', ''regex''], s_pos = 0\<rparr>"

text \<open>
  \<open>regexp.Compile\<close> is the parameter \<open>compile\<close>: \<open>None\<close> for a pattern that does not compile,
  otherwise the match predicate of the compiled pattern.
\<close>

definition reCursor_Filter ::
  "(string \<Rightarrow> (string \<Rightarrow> bool) option) \<Rightarrow> strCursor \<Rightarrow> int \<Rightarrow> string \<Rightarrow> Value list
   \<Rightarrow> error option \<times> strCursor" where
  "reCursor_Filter compile c idxNum idxStr vals =
     (let all = [''alpha'', ''beta'', ''alpine'', ''regex''];
          rows = (if idxNum = 10 \<and> length vals = 1
                  then (case compile (asString (vals ! 0)) of
                          None \<Rightarrow> []
                        | Some matches \<Rightarrow> filter matches all)
                  else all)
      in (None, \<lparr>s_rows = rows, s_pos = 0\<rparr>))"

definition reCursor_Next :: "strCursor \<Rightarrow> error option \<times> strCursor" where
  "reCursor_Next c =
     (if s_pos c < int (length (s_rows c)) then (None, c\<lparr>s_pos := s_pos c + 1\<rparr>) else (None, c))"

definition reCursor_Eof :: "strCursor \<Rightarrow> bool" where
  "reCursor_Eof c = (s_pos c \<ge> int (length (s_rows c)))"

definition reCursor_Close :: "strCursor \<Rightarrow> error option \<times> strCursor" where
  "reCursor_Close c = (None, c)"

subsection \<open>Call sequences on a cursor\<close>

text \<open>
  The calls the engine makes on an open cursor. A \<open>Filter\<close> on a \<open>csvCursor\<close> reads the
  table as it is at the time of the call, so the call carries that table.
\<close>

datatype cursorCall = CallFilter int string "Value list" | CallNext | CallClose

datatype csvCall = CsvFilter csvTable int string "Value list" | CsvNext | CsvClose

fun csv_calls :: "(float64 \<Rightarrow> string) \<Rightarrow> csvCursor \<Rightarrow> csvCall list \<Rightarrow> csvCursor" where
  "csv_calls ff c [] = c"
| "csv_calls ff c (CsvFilter t n s vs # ks) = csv_calls ff (snd (csvCursor_Filter ff t c n s vs)) ks"
| "csv_calls ff c (CsvNext # ks) = csv_calls ff (snd (csvCursor_Next c)) ks"
| "csv_calls ff c (CsvClose # ks) = csv_calls ff (snd (csvCursor_Close c)) ks"

fun dummy_calls :: "dummyCursor \<Rightarrow> cursorCall list \<Rightarrow> dummyCursor" where
  "dummy_calls c [] = c"
| "dummy_calls c (CallFilter n s vs # ks) = dummy_calls (snd (dummyCursor_Filter c n s vs)) ks"
| "dummy_calls c (CallNext # ks) = dummy_calls (snd (dummyCursor_Next c)) ks"
| "dummy_calls c (CallClose # ks) = dummy_calls (snd (dummyCursor_Close c)) ks"

fun echo_calls :: "strCursor \<Rightarrow> cursorCall list \<Rightarrow> strCursor" where
  "echo_calls c [] = c"
| "echo_calls c (CallFilter n s vs # ks) = echo_calls (snd (echoCursor_Filter c n s vs)) ks"
| "echo_calls c (CallNext # ks) = echo_calls (snd (echoCursor_Next c)) ks"
| "echo_calls c (CallClose # ks) = echo_calls (snd (echoCursor_Close c)) ks"

fun match_calls :: "(string \<Rightarrow> string) \<Rightarrow> strCursor \<Rightarrow> cursorCall list \<Rightarrow> strCursor" where
  "match_calls lw c [] = c"
| "match_calls lw c (CallFilter n s vs # ks) = match_calls lw (snd (matchCursor_Filter lw c n s vs)) ks"
| "match_calls lw c (CallNext # ks) = match_calls lw (snd (matchCursor_Next c)) ks"
| "match_calls lw c (CallClose # ks) = match_calls lw (snd (matchCursor_Close c)) ks"

fun re_calls ::
  "(string \<Rightarrow> (string \<Rightarrow> bool) option) \<Rightarrow> strCursor \<Rightarrow> cursorCall list \<Rightarrow> strCursor" where
  "re_calls cmp c [] = c"
| "re_calls cmp c (CallFilter n s vs # ks) = re_calls cmp (snd (reCursor_Filter cmp c n s vs)) ks"
| "re_calls cmp c (CallNext # ks) = re_calls cmp (snd (reCursor_Next c)) ks"
| "re_calls cmp c (CallClose # ks) = re_calls cmp (snd (reCursor_Close c)) ks"

section \<open>Statements about cursors\<close>

text \<open>The position of a cursor lies between 0 and the number of its rows.\<close>

definition csv_inv :: "csvCursor \<Rightarrow> bool" where
  "csv_inv c = (0 \<le> c_pos c \<and> c_pos c \<le> int (length (c_rows c)))"

definition dummy_inv :: "dummyCursor \<Rightarrow> bool" where
  "dummy_inv c = (0 \<le> d_pos c \<and> d_pos c \<le> int (length (d_rows c)))"

definition str_inv :: "strCursor \<Rightarrow> bool" where
  "str_inv c = (0 \<le> s_pos c \<and> s_pos c \<le> int (length (s_rows c)))"

text \<open>
  What is stated of a cursor: the position is in range, \<open>Eof\<close> holds exactly at the end,
  \<open>Next\<close> at the end returns nil and the same cursor, and \<open>Next\<close> returns nil anyway.
\<close>

definition csvCursor_ok :: "csvCursor \<Rightarrow> bool" where
  "csvCursor_ok c =
     (0 \<le> c_pos c \<and> c_pos c \<le> int (length (c_rows c)) \<and>
      (csvCursor_Eof c \<longleftrightarrow> c_pos c = int (length (c_rows c))) \<and>
      (csvCursor_Eof c \<longrightarrow> csvCursor_Next c = (None, c)) \<and>
      fst (csvCursor_Next c) = None)"

definition dummyCursor_ok :: "dummyCursor \<Rightarrow> bool" where
  "dummyCursor_ok c =
     (0 \<le> d_pos c \<and> d_pos c \<le> int (length (d_rows c)) \<and>
      (dummyCursor_Eof c \<longleftrightarrow> d_pos c = int (length (d_rows c))) \<and>
      (dummyCursor_Eof c \<longrightarrow> dummyCursor_Next c = (None, c)) \<and>
      fst (dummyCursor_Next c) = None)"

definition strCursor_ok ::
  "(strCursor \<Rightarrow> bool) \<Rightarrow> (strCursor \<Rightarrow> error option \<times> strCursor) \<Rightarrow> strCursor \<Rightarrow> bool" where
  "strCursor_ok eof nxt c =
     (0 \<le> s_pos c \<and> s_pos c \<le> int (length (s_rows c)) \<and>
      (eof c \<longleftrightarrow> s_pos c = int (length (s_rows c))) \<and>
      (eof c \<longrightarrow> nxt c = (None, c)) \<and>
      fst (nxt c) = None)"

text \<open>The table of the CSV example's \<open>main\<close>: a header and two rows.\<close>

definition people :: csvTable where
  "people = \<lparr>t_file = ''data.csv'', t_cols = [''name'', ''email''],
             t_rows = [[''Alice'', ''alice@example.com''], [''Bob'', ''bob@example.com'']],
             t_nextID = 3, t_header = True, t_delimiter = 44, t_quote = 34\<rparr>"

text \<open>A table whose first column holds digits.\<close>

definition numbers :: csvTable where
  "numbers = \<lparr>t_file = ''numbers.csv'', t_cols = [''n'', ''word''],
             t_rows = [[''10'', ''ten''], [''7'', ''seven'']],
             t_nextID = 3, t_header = True, t_delimiter = 44, t_quote = 34\<rparr>"

section \<open>Queries of the tests and examples\<close>

text \<open>
  The draft the engine hands to \<open>BestIndex\<close> for \<open>WHERE c1 = ? AND c2 = ?\<close> (the query of
  \<open>TestVtabConstraintArgIndex\<close>), and one for \<open>WHERE email > ? AND name = ?\<close> on the CSV
  example table. No constraint of a draft has a slot yet.
\<close>

definition query_c1_c2 :: IndexInfo where
  "query_c1_c2 =
     \<lparr>Constraints = [\<lparr>Column = 0, Op = OpEQ, Usable = True, ArgIndex = -1, Omit = False\<rparr>,
                     \<lparr>Column = 1, Op = OpEQ, Usable = True, ArgIndex = -1, Omit = False\<rparr>],
      IdxNum = 0, IdxStr = []\<rparr>"

definition query_email_name :: IndexInfo where
  "query_email_name =
     \<lparr>Constraints = [\<lparr>Column = 1, Op = OpGT, Usable = True, ArgIndex = -1, Omit = False\<rparr>,
                     \<lparr>Column = 0, Op = OpEQ, Usable = True, ArgIndex = -1, Omit = False\<rparr>],
      IdxNum = 0, IdxStr = []\<rparr>"

section \<open>Statements about \<open>Update\<close>\<close>

text \<open>
  The rowid a row of \<open>updaterTableX\<close> has after \<open>Update\<close>: the new one when it is given, not
  zero and not the old one, else the old one. And when \<open>csvTable.Update\<close> swaps two rows: for
  such a new rowid that is also a position of the table.
\<close>

definition rowidAfterUpdate :: "int64 \<Rightarrow> int64 option \<Rightarrow> int64" where
  "rowidAfterUpdate oldRowid newRowid =
     (case newRowid of
        None \<Rightarrow> oldRowid
      | Some n \<Rightarrow> if n \<noteq> 0 \<and> n \<noteq> oldRowid then n else oldRowid)"

definition csvSwaps :: "csvTable \<Rightarrow> int64 \<Rightarrow> int64 option \<Rightarrow> bool" where
  "csvSwaps t oldRowid newRowid =
     (case newRowid of
        None \<Rightarrow> False
      | Some n \<Rightarrow> n \<noteq> 0 \<and> n \<noteq> oldRowid \<and> 0 \<le> sint (n - 1) \<and> sint (n - 1) < int (length (t_rows t)))"

text \<open>The rows of \<open>TestVtabUpdaterInsertUpdateDelete\<close> after its three inserts.\<close>

definition abc :: updaterTableX where
  "abc = \<lparr>u_rows = [\<lparr>id_f = 1, val_f = ''Alice''\<rparr>, \<lparr>id_f = 2, val_f = ''Bob''\<rparr>,
                    \<lparr>id_f = 3, val_f = ''Carol''\<rparr>], u_nextID = 4\<rparr>"

section \<open>Plain CSV text\<close>

text \<open>
  For records whose fields are not empty and hold no delimiter, quote, line break or leading
  space, the writer of \<open>encoding/csv\<close> prints the fields as they are, joined by the
  delimiter, and ends every record with a line feed. \<open>plainWrite\<close> does this for a one-byte
  delimiter and stands for the writer where a run on such records is computed. \<open>disk\<close> holds
  the file the CSV example's \<open>main\<close> writes before it creates the table.
\<close>

definition nl :: char where
  "nl = CHR 0x0A"

fun joinWith :: "string \<Rightarrow> string list \<Rightarrow> string" where
  "joinWith sep [] = []"
| "joinWith sep [s] = s"
| "joinWith sep (s # t # ts) = s @ sep @ joinWith sep (t # ts)"

definition plainDelim :: "rune \<Rightarrow> bool" where
  "plainDelim r = (0 < r \<and> r < 128 \<and> r \<noteq> 34 \<and> r \<noteq> 13 \<and> r \<noteq> 10)"

definition plainWrite :: csvWriter where
  "plainWrite comma recs =
     (if \<not> plainDelim comma then Inl (Err ''csv: invalid field or comment delimiter'')
      else Inr (concat (map (\<lambda>r. joinWith (runeString comma) r @ [nl]) recs)))"

definition people_csv :: string where
  "people_csv = ''name,email'' @ [nl] @ ''Alice,alice@example.com'' @ [nl]
                @ ''Bob,bob@example.com'' @ [nl]"

definition disk :: files where
  "disk = [''data.csv'' \<mapsto> people_csv]"

section \<open>The writer and the reader of \<open>encoding/csv\<close>\<close>

text \<open>
  What the file holds after \<open>flush\<close>, and what \<open>loadCSV\<close> makes of it, is decided by the
  writer and the reader of the Go standard library. They are given here as \<open>flush\<close> and
  \<open>loadCSV\<close> set them up: the delimiter is the only field that is set, so records end with a
  line feed (\<open>UseCRLF\<close> is false), quotes are strict (\<open>LazyQuotes\<close> is false), leading space is
  kept, there is no comment character, and with \<open>FieldsPerRecord = -1\<close> records may differ in
  width.
\<close>

definition cr :: char where
  "cr = CHR 0x0D"

definition dq :: char where
  "dq = CHR 0x22"

definition errInvalidDelim :: error where
  "errInvalidDelim = Err ''csv: invalid field or comment delimiter''"

text \<open>
  The errors of a malformed quote. The reader reports them with the line and the column
  where they were found; the position is left out of the text here.
\<close>

definition ErrBareQuote :: error where
  "ErrBareQuote = Err (''bare '' @ [dq] @ '' in non-quoted-field'')"

definition ErrQuote :: error where
  "ErrQuote = Err (''extraneous or missing '' @ [dq] @ '' in quoted-field'')"

text \<open>\<open>validDelim\<close>: a valid code point other than NUL, the quote, CR, LF and U+FFFD.\<close>

definition validDelim :: "rune \<Rightarrow> bool" where
  "validDelim r =
     (r \<noteq> 0 \<and> r \<noteq> 34 \<and> r \<noteq> 13 \<and> r \<noteq> 10 \<and>
      0 \<le> r \<and> r \<le> 1114111 \<and> \<not> (55296 \<le> r \<and> r \<le> 57343) \<and> r \<noteq> 65533)"

subsection \<open>The writer\<close>








subsection \<open>The reader\<close>

text \<open>
  The reader takes its input line by line. In every line a CR before the closing LF is
  dropped, and so is a CR that ends the text in a last line without LF. \<open>normalizeLines\<close>
  does this on the whole text.
\<close>

fun normalizeLines :: "string \<Rightarrow> string" where
  "normalizeLines [] = []"
| "normalizeLines [c] = (if c = cr then [] else [c])"
| "normalizeLines (c # d # s) =
     (if c = cr \<and> d = nl then nl # normalizeLines s else c # normalizeLines (d # s))"

text \<open>
  The records of a text whose lines have been so normalised. \<open>cb\<close> is the UTF-8 text of the
  delimiter, \<open>rec\<close> the fields of the record read so far, \<open>buf\<close> the part of the field read
  so far. At the start of a record empty lines are skipped and the end of the text ends the
  reading. A field that starts with a quote runs to the closing quote, over line feeds; a
  doubled quote stands for one; after the closing quote comes the delimiter, the end of the
  line or the end of the text, anything else is \<open>ErrQuote\<close>, as is the end of the text
  inside the quotes. Any other field runs to the next delimiter or to the end of the line
  and must not hold a quote (\<open>ErrBareQuote\<close>). The result is the records in front of the
  first error, and that error.
\<close>

datatype readerState = RecordStart | FieldStart | InField | InQuotes

fun emit :: "string list \<Rightarrow> string list list \<times> error option \<Rightarrow> string list list \<times> error option" where
  "emit r (rs, e) = (r # rs, e)"

function (sequential) readRecords ::
  "string \<Rightarrow> readerState \<Rightarrow> string list \<Rightarrow> string \<Rightarrow> string \<Rightarrow> string list list \<times> error option" where
  "readRecords cb RecordStart rec buf [] = ([], None)"
| "readRecords cb RecordStart rec buf (c # s) =
     (if c = nl then readRecords cb RecordStart [] [] s
      else readRecords cb FieldStart [] [] (c # s))"
| "readRecords cb FieldStart rec buf [] = readRecords cb InField rec [] []"
| "readRecords cb FieldStart rec buf (c # s) =
     (if c = dq then readRecords cb InQuotes rec [] s
      else readRecords cb InField rec [] (c # s))"
| "readRecords cb InField rec buf [] = ([rec @ [buf]], None)"
| "readRecords cb InField rec buf (c # s) =
     (if c = nl then emit (rec @ [buf]) (readRecords cb RecordStart [] [] s)
      else if cb \<noteq> [] \<and> hasPrefix (c # s) cb
      then readRecords cb FieldStart (rec @ [buf]) [] (drop (length cb) (c # s))
      else if c = dq then ([], Some ErrBareQuote)
      else readRecords cb InField rec (buf @ [c]) s)"
| "readRecords cb InQuotes rec buf [] = ([], Some ErrQuote)"
| "readRecords cb InQuotes rec buf [c] =
     (if c = dq then ([rec @ [buf]], None) else ([], Some ErrQuote))"
| "readRecords cb InQuotes rec buf (c # d # s) =
     (if c \<noteq> dq then readRecords cb InQuotes rec (buf @ [c]) (d # s)
      else if d = dq then readRecords cb InQuotes rec (buf @ [dq]) s
      else if cb \<noteq> [] \<and> hasPrefix (d # s) cb
      then readRecords cb FieldStart (rec @ [buf]) [] (drop (length cb) (d # s))
      else if d = nl then emit (rec @ [buf]) (readRecords cb RecordStart [] [] s)
      else ([], Some ErrQuote))"
  by pat_completeness auto
termination
  by (relation "measures [\<lambda>(cb, st, rec, buf, s). length s,
                          \<lambda>(cb, st, rec, buf, s).
                             (case st of RecordStart \<Rightarrow> 2 | FieldStart \<Rightarrow> 1 | _ \<Rightarrow> 0)]")
     auto

text \<open>
  \<open>Reader.Read\<close>, called until it fails: an invalid delimiter is the error of the first call;
  otherwise the records of the normalised text.
\<close>

definition Reader_ReadAll :: csvReader where
  "Reader_ReadAll comma data =
     (if \<not> validDelim comma then ([], Some errInvalidDelim)
      else readRecords (runeString comma) RecordStart [] [] (normalizeLines data))"

section \<open>Statements about reattachment\<close>

















section \<open>Properties\<close>


subsection \<open>Decimal text\<close>

lemma showNat_lt10: "n < 10 \<Longrightarrow> showNat n = [''0123456789'' ! n]"
  by (simp add: showNat.simps)
lemma showNat_ge10: "10 \<le> n \<Longrightarrow> showNat n = showNat (n div 10) @ [''0123456789'' ! (n mod 10)]"
  by (subst showNat.simps) simp

subsection \<open>Rowid allocation of \<open>updaterTableX\<close>\<close>

lemma Insert_sentinel:
  "updaterTableX_Insert t cols 0 = Inr (t', i) \<Longrightarrow> i = u_nextID t \<and> u_nextID t' = u_nextID t + 1"
  by (auto simp: updaterTableX_Insert_def Let_def split: list.splits)

lemma Delete_keeps_nextID: "updaterTableX_Delete t r = Inr t' \<Longrightarrow> u_nextID t' = u_nextID t"
  by (auto simp: updaterTableX_Delete_def split: sum.splits)

lemma run_uops_assigned:
  "snd (run_uops t ops) = map (\<lambda>k. u_nextID t + of_nat k) [0..<length (snd (run_uops t ops))]"
proof (induction t ops rule: run_uops.induct)
  case (1 t)
  then show ?case by simp
next
  case (2 t cols ops)
  show ?case
  proof (cases "updaterTableX_Insert t cols 0")
    case (Inl e)
    with 2 show ?thesis by simp
  next
    case (Inr p)
    obtain t' i where p: "p = (t', i)" by (cases p)
    from Inr p have ii: "i = u_nextID t" "u_nextID t' = u_nextID t + 1"
      using Insert_sentinel by auto
    obtain t'' js where r: "run_uops t' ops = (t'', js)" by (cases "run_uops t' ops")
    have ih: "js = map (\<lambda>k. u_nextID t' + of_nat k) [0..<length js]"
      using 2(2)[OF Inr p[symmetric]] r by simp
    have "i # js = map (\<lambda>k. u_nextID t + of_nat k) [0..<Suc (length js)]"
      apply (subst ih)
      apply (simp add: ii upt_conv_Cons map_Suc_upt[symmetric] del: upt_Suc)
      done
    then show ?thesis using Inr p r by simp
  qed
next
  case (3 t r ops)
  then show ?case
    by (cases "updaterTableX_Delete t r") (auto simp: Delete_keeps_nextID)
qed

lemma run_uops_length: "length (snd (run_uops t ops)) \<le> length ops"
proof (induction t ops rule: run_uops.induct)
  case (1 t)
  then show ?case by simp
next
  case (2 t cols ops)
  show ?case
  proof (cases "updaterTableX_Insert t cols 0")
    case (Inl e)
    with 2 show ?thesis by simp
  next
    case (Inr p)
    obtain t' i where p: "p = (t', i)" by (cases p)
    obtain t'' js where r: "run_uops t' ops = (t'', js)" by (cases "run_uops t' ops")
    have "length (snd (run_uops t' ops)) \<le> length ops"
      using 2(2)[OF Inr p[symmetric]] by simp
    then show ?thesis using Inr p r by simp
  qed
next
  case (3 t r ops)
  then show ?case
    by (cases "updaterTableX_Delete t r") auto
qed

lemma sint_rowid: "k < 2 ^ 63 \<Longrightarrow> sint (word_of_nat k :: int64) = int k"
  by (simp add: signed_of_nat signed_take_bit_int_eq_self)

text \<open>
  Claim C5. From the table \<open>Create\<close> returns, over any sequence of inserts with the zero
  rowid sentinel and deletes (shorter than \<open>2^63\<close> calls, so the 64-bit counter has not
  wrapped), the rowids assigned are \<open>1, 2, 3, ...\<close> in order: each is strictly greater
  than all assigned before it, and none is assigned twice, whatever was deleted in between.
\<close>

theorem C5_sentinel_rowids_increase:
  assumes "length ops < 2 ^ 63"
  shows "sorted_wrt (\<lambda>a b. sint a < sint b) (snd (run_uops updaterModuleX_Create ops)) \<and>
         distinct (snd (run_uops updaterModuleX_Create ops)) \<and>
         snd (run_uops updaterModuleX_Create ops) =
           map word_of_nat [1..<Suc (length (snd (run_uops updaterModuleX_Create ops)))]"
proof -
  let ?ids = "snd (run_uops updaterModuleX_Create ops)"
  let ?n = "length ?ids"
  have n: "?n < 2 ^ 63"
    using run_uops_length [of updaterModuleX_Create ops] assms by linarith
  have ids: "?ids = map (\<lambda>k. 1 + word_of_nat k) [0..<?n]"
    using run_uops_assigned [of updaterModuleX_Create ops]
    by (simp add: updaterModuleX_Create_def)
  have nth: "sint (?ids ! k) = int k + 1" if "k < ?n" for k
  proof -
    have "?ids ! k = (word_of_nat (Suc k) :: int64)"
      by (subst ids) (use that in simp)
    moreover have "Suc k < 2 ^ 63" using that n by linarith
    ultimately show ?thesis by (simp add: sint_rowid del: of_nat_Suc)
  qed
  have sorted: "sorted_wrt (\<lambda>a b. sint a < sint b) ?ids"
    unfolding sorted_wrt_iff_nth_less by (auto simp: nth)
  have dist: "distinct ?ids"
    unfolding distinct_conv_nth
  proof (intro allI impI)
    fix i j assume "i < ?n" "j < ?n" "i \<noteq> j"
    then have "sint (?ids ! i) \<noteq> sint (?ids ! j)" by (simp add: nth)
    then show "?ids ! i \<noteq> ?ids ! j" by auto
  qed
  have "?ids = map word_of_nat [1..<Suc ?n]"
    by (subst ids) (simp add: map_Suc_upt [symmetric] del: upt_Suc)
  with sorted dist show ?thesis by blast
qed

text \<open>
  The scenario of the claim: three inserts give 1, 2, 3; after deleting rowid 2 the rows
  left are 1 and 3 and the next insert is given 4.
\<close>

theorem C5_sentinel_rowids_increase_witness:
  "length [SentinelInsert [Text ''A''], SentinelInsert [Text ''B''], SentinelInsert [Text ''C''],
            DeleteRow 2, SentinelInsert [Text ''D'']] < (2::nat) ^ 63 \<and>
   snd (run_uops updaterModuleX_Create
           [SentinelInsert [Text ''A''], SentinelInsert [Text ''B''], SentinelInsert [Text ''C''],
            DeleteRow 2, SentinelInsert [Text ''D'']]) = [1, 2, 3, 4] \<and>
   map id_f (u_rows (fst (run_uops updaterModuleX_Create
           [SentinelInsert [Text ''A''], SentinelInsert [Text ''B''], SentinelInsert [Text ''C''],
            DeleteRow 2, SentinelInsert [Text ''D'']]))) = [1, 3, 4] \<and>
   sorted_wrt (\<lambda>a b. sint a < sint b) (snd (run_uops updaterModuleX_Create
           [SentinelInsert [Text ''A''], SentinelInsert [Text ''B''], SentinelInsert [Text ''C''],
            DeleteRow 2, SentinelInsert [Text ''D'']]))"
proof -
  have len: "length [SentinelInsert [Text ''A''], SentinelInsert [Text ''B''], SentinelInsert [Text ''C''],
            DeleteRow 2, SentinelInsert [Text ''D'']] < (2::nat) ^ 63" by simp
  have run: "run_uops updaterModuleX_Create
           [SentinelInsert [Text ''A''], SentinelInsert [Text ''B''], SentinelInsert [Text ''C''],
            DeleteRow 2, SentinelInsert [Text ''D'']]
     = (\<lparr>u_rows = [\<lparr>id_f = 1, val_f = ''A''\<rparr>, \<lparr>id_f = 3, val_f = ''C''\<rparr>, \<lparr>id_f = 4, val_f = ''D''\<rparr>],
         u_nextID = 5\<rparr>, [1, 2, 3, 4])"
    by (simp add: updaterModuleX_Create_def updaterTableX_Insert_def updaterTableX_Delete_def)
  show ?thesis
    unfolding run using C5_sentinel_rowids_increase [OF len, unfolded run] by simp
qed

text \<open>
  Claim C10. \<open>updaterTableX.Insert\<close> with a non-zero rowid \<open>r\<close> stores the row under \<open>r\<close> and
  sets the counter to \<open>r + 1\<close>, whatever rowids the table holds. Two sentinel inserts
  (rowids 1 and 2), an insert with the explicit rowid 1 and one more sentinel insert leave
  four rows with the rowids 1, 2, 1, 2.
\<close>

theorem C10_explicit_rowid_resets_counter:
  "(r \<noteq> 0 \<longrightarrow>
      updaterTableX_Insert t (c # cs) r =
        Inr (\<lparr>u_rows = u_rows t @ [\<lparr>id_f = r, val_f = asString c\<rparr>], u_nextID = r + 1\<rparr>, r)) \<and>
   (\<exists>t1 t2 t3 t4 i4.
      updaterTableX_Insert updaterModuleX_Create [Text ''a''] 0 = Inr (t1, 1) \<and>
      updaterTableX_Insert t1 [Text ''b''] 0 = Inr (t2, 2) \<and>
      updaterTableX_Insert t2 [Text ''c''] 1 = Inr (t3, 1) \<and>
      u_nextID t3 = 2 \<and>
      updaterTableX_Insert t3 [Text ''d''] 0 = Inr (t4, i4) \<and>
      u_rows t4 = [\<lparr>id_f = 1, val_f = ''a''\<rparr>, \<lparr>id_f = 2, val_f = ''b''\<rparr>,
                   \<lparr>id_f = 1, val_f = ''c''\<rparr>, \<lparr>id_f = 2, val_f = ''d''\<rparr>] \<and>
      \<not> distinct (map id_f (u_rows t4)))"
  by (simp add: updaterTableX_Insert_def updaterModuleX_Create_def)

text \<open>The explicit rowid 1 on a table that holds the rowids 1 and 2 and has its counter at 3.\<close>

theorem C10_explicit_rowid_resets_counter_witness:
  "(1::int64) \<noteq> 0 \<and>
   updaterTableX_Insert
     \<lparr>u_rows = [\<lparr>id_f = 1, val_f = ''a''\<rparr>, \<lparr>id_f = 2, val_f = ''b''\<rparr>], u_nextID = 3\<rparr>
     [Text ''c''] 1 =
   Inr (\<lparr>u_rows = [\<lparr>id_f = 1, val_f = ''a''\<rparr>, \<lparr>id_f = 2, val_f = ''b''\<rparr>,
                   \<lparr>id_f = 1, val_f = ''c''\<rparr>], u_nextID = 2\<rparr>, 1)"
  using C10_explicit_rowid_resets_counter
    [of 1 "\<lparr>u_rows = [\<lparr>id_f = 1, val_f = ''a''\<rparr>, \<lparr>id_f = 2, val_f = ''b''\<rparr>], u_nextID = 3\<rparr>"
        "Text ''c''" "[]"]
  by simp

subsection \<open>Cursor positions\<close>

lemma csv_calls_inv: "csv_inv c \<Longrightarrow> csv_inv (csv_calls ff c ks)"
proof (induction ks arbitrary: c)
  case Nil
  then show ?case by simp
next
  case (Cons k ks)
  show ?case
  proof (cases k)
    case (CsvFilter t n s vs)
    have "csv_inv (snd (csvCursor_Filter ff t c n s vs))"
      by (simp add: csvCursor_Filter_def csv_inv_def Let_def split: option.splits list.splits)
    then show ?thesis using Cons.IH CsvFilter by simp
  next
    case CsvNext
    have "csv_inv (snd (csvCursor_Next c))"
      using Cons.prems by (simp add: csvCursor_Next_def csv_inv_def)
    then show ?thesis using Cons.IH CsvNext by simp
  next
    case CsvClose
    then show ?thesis using Cons by (simp add: csvCursor_Close_def)
  qed
qed

lemma dummy_calls_inv: "dummy_inv c \<Longrightarrow> dummy_inv (dummy_calls c ks)"
proof (induction ks arbitrary: c)
  case Nil
  then show ?case by simp
next
  case (Cons k ks)
  show ?case
  proof (cases k)
    case (CallFilter n s vs)
    have "dummy_inv (snd (dummyCursor_Filter c n s vs))"
      by (simp add: dummyCursor_Filter_def dummy_inv_def)
    then show ?thesis using Cons.IH CallFilter by simp
  next
    case CallNext
    have "dummy_inv (snd (dummyCursor_Next c))"
      using Cons.prems by (simp add: dummyCursor_Next_def dummy_inv_def)
    then show ?thesis using Cons.IH CallNext by simp
  next
    case CallClose
    have "dummy_inv (snd (dummyCursor_Close c))"
      by (simp add: dummyCursor_Close_def dummy_inv_def)
    then show ?thesis using Cons.IH CallClose by simp
  qed
qed

lemma echo_calls_inv: "str_inv c \<Longrightarrow> str_inv (echo_calls c ks)"
proof (induction ks arbitrary: c)
  case Nil
  then show ?case by simp
next
  case (Cons k ks)
  show ?case
  proof (cases k)
    case (CallFilter n s vs)
    have "str_inv (snd (echoCursor_Filter c n s vs))"
      by (simp add: echoCursor_Filter_def str_inv_def Let_def)
    then show ?thesis using Cons.IH CallFilter by simp
  next
    case CallNext
    have "str_inv (snd (echoCursor_Next c))"
      using Cons.prems by (simp add: echoCursor_Next_def str_inv_def)
    then show ?thesis using Cons.IH CallNext by simp
  next
    case CallClose
    then show ?thesis using Cons by (simp add: echoCursor_Close_def)
  qed
qed

lemma match_calls_inv: "str_inv c \<Longrightarrow> str_inv (match_calls lw c ks)"
proof (induction ks arbitrary: c)
  case Nil
  then show ?case by simp
next
  case (Cons k ks)
  show ?case
  proof (cases k)
    case (CallFilter n s vs)
    have "str_inv (snd (matchCursor_Filter lw c n s vs))"
      by (simp add: matchCursor_Filter_def str_inv_def Let_def)
    then show ?thesis using Cons.IH CallFilter by simp
  next
    case CallNext
    have "str_inv (snd (matchCursor_Next c))"
      using Cons.prems by (simp add: matchCursor_Next_def str_inv_def)
    then show ?thesis using Cons.IH CallNext by simp
  next
    case CallClose
    then show ?thesis using Cons by (simp add: matchCursor_Close_def)
  qed
qed

lemma re_calls_inv: "str_inv c \<Longrightarrow> str_inv (re_calls cmp c ks)"
proof (induction ks arbitrary: c)
  case Nil
  then show ?case by simp
next
  case (Cons k ks)
  show ?case
  proof (cases k)
    case (CallFilter n s vs)
    have "str_inv (snd (reCursor_Filter cmp c n s vs))"
      by (simp add: reCursor_Filter_def str_inv_def Let_def split: option.splits)
    then show ?thesis using Cons.IH CallFilter by simp
  next
    case CallNext
    have "str_inv (snd (reCursor_Next c))"
      using Cons.prems by (simp add: reCursor_Next_def str_inv_def)
    then show ?thesis using Cons.IH CallNext by simp
  next
    case CallClose
    then show ?thesis using Cons by (simp add: reCursor_Close_def)
  qed
qed

lemma csv_inv_props:
  "csv_inv c \<Longrightarrow> (csvCursor_Eof c \<longleftrightarrow> c_pos c = int (length (c_rows c))) \<and>
     (csvCursor_Eof c \<longrightarrow> csvCursor_Next c = (None, c)) \<and> fst (csvCursor_Next c) = None \<and>
     csv_inv (snd (csvCursor_Next c))"
  by (auto simp: csv_inv_def csvCursor_Eof_def csvCursor_Next_def)

lemma dummy_inv_props:
  "dummy_inv c \<Longrightarrow> (dummyCursor_Eof c \<longleftrightarrow> d_pos c = int (length (d_rows c))) \<and>
     (dummyCursor_Eof c \<longrightarrow> dummyCursor_Next c = (None, c)) \<and> fst (dummyCursor_Next c) = None \<and>
     dummy_inv (snd (dummyCursor_Next c))"
  by (auto simp: dummy_inv_def dummyCursor_Eof_def dummyCursor_Next_def)

lemma echo_inv_props:
  "str_inv c \<Longrightarrow> (echoCursor_Eof c \<longleftrightarrow> s_pos c = int (length (s_rows c))) \<and>
     (echoCursor_Eof c \<longrightarrow> echoCursor_Next c = (None, c)) \<and> fst (echoCursor_Next c) = None \<and>
     str_inv (snd (echoCursor_Next c))"
  by (auto simp: str_inv_def echoCursor_Eof_def echoCursor_Next_def)

lemma match_inv_props:
  "str_inv c \<Longrightarrow> (matchCursor_Eof c \<longleftrightarrow> s_pos c = int (length (s_rows c))) \<and>
     (matchCursor_Eof c \<longrightarrow> matchCursor_Next c = (None, c)) \<and> fst (matchCursor_Next c) = None \<and>
     str_inv (snd (matchCursor_Next c))"
  by (auto simp: str_inv_def matchCursor_Eof_def matchCursor_Next_def)

lemma re_inv_props:
  "str_inv c \<Longrightarrow> (reCursor_Eof c \<longleftrightarrow> s_pos c = int (length (s_rows c))) \<and>
     (reCursor_Eof c \<longrightarrow> reCursor_Next c = (None, c)) \<and> fst (reCursor_Next c) = None \<and>
     str_inv (snd (reCursor_Next c))"
  by (auto simp: str_inv_def reCursor_Eof_def reCursor_Next_def)

text \<open>
  Claim C9. For \<open>csvCursor\<close>, \<open>echoCursor\<close>, \<open>matchCursor\<close>, \<open>dummyCursor\<close> and \<open>reCursor\<close>:
  after any sequence of \<open>Filter\<close>, \<open>Next\<close> and \<open>Close\<close> calls on the cursor \<open>Open\<close> returns,
  the position is between 0 and the number of rows, \<open>Eof\<close> is true exactly when the position
  equals the number of rows, and \<open>Next\<close> at \<open>Eof\<close> returns nil and leaves the cursor as it is;
  \<open>Next\<close> never returns an error.
\<close>

theorem C9_cursor_position_invariant:
  "csvCursor_ok (csv_calls ff (csvTable_Open t) ks1) \<and>
   strCursor_ok echoCursor_Eof echoCursor_Next (echo_calls echoTable_Open ks2) \<and>
   strCursor_ok matchCursor_Eof matchCursor_Next (match_calls lw matchTable_Open ks3) \<and>
   dummyCursor_ok (dummy_calls dummyTable_Open ks4) \<and>
   strCursor_ok reCursor_Eof reCursor_Next (re_calls cmp reTable_Open ks5)"
proof (intro conjI)
  have "csv_inv (csvTable_Open t)"
    by (simp add: csv_inv_def csvTable_Open_def)
  then have "csv_inv (csv_calls ff (csvTable_Open t) ks1)"
    by (rule csv_calls_inv)
  then show "csvCursor_ok (csv_calls ff (csvTable_Open t) ks1)"
    using csv_inv_props [of "csv_calls ff (csvTable_Open t) ks1"]
    by (simp add: csvCursor_ok_def csv_inv_def)
next
  have "str_inv echoTable_Open"
    by (simp add: str_inv_def echoTable_Open_def)
  then have "str_inv (echo_calls echoTable_Open ks2)"
    by (rule echo_calls_inv)
  then show "strCursor_ok echoCursor_Eof echoCursor_Next (echo_calls echoTable_Open ks2)"
    using echo_inv_props [of "echo_calls echoTable_Open ks2"]
    by (simp add: strCursor_ok_def str_inv_def)
next
  have "str_inv matchTable_Open"
    by (simp add: str_inv_def matchTable_Open_def)
  then have "str_inv (match_calls lw matchTable_Open ks3)"
    by (rule match_calls_inv)
  then show "strCursor_ok matchCursor_Eof matchCursor_Next (match_calls lw matchTable_Open ks3)"
    using match_inv_props [of "match_calls lw matchTable_Open ks3"]
    by (simp add: strCursor_ok_def str_inv_def)
next
  have "dummy_inv dummyTable_Open"
    by (simp add: dummy_inv_def dummyTable_Open_def)
  then have "dummy_inv (dummy_calls dummyTable_Open ks4)"
    by (rule dummy_calls_inv)
  then show "dummyCursor_ok (dummy_calls dummyTable_Open ks4)"
    using dummy_inv_props [of "dummy_calls dummyTable_Open ks4"]
    by (simp add: dummyCursor_ok_def dummy_inv_def)
next
  have "str_inv reTable_Open"
    by (simp add: str_inv_def reTable_Open_def)
  then have "str_inv (re_calls cmp reTable_Open ks5)"
    by (rule re_calls_inv)
  then show "strCursor_ok reCursor_Eof reCursor_Next (re_calls cmp reTable_Open ks5)"
    using re_inv_props [of "re_calls cmp reTable_Open ks5"]
    by (simp add: strCursor_ok_def str_inv_def)
qed

text \<open>Runs that end at \<open>Eof\<close>, one per cursor.\<close>

lemma csv_run: "csv_calls (\<lambda>x. []) (csvTable_Open people) [CsvFilter people 0 [] [], CsvNext, CsvNext, CsvNext]
   = \<lparr>c_rows = t_rows people, c_pos = 2\<rparr>"
  by (simp add: csvTable_Open_def people_def csvCursor_Filter_def csvCursor_Next_def)

lemma echo_run: "echo_calls echoTable_Open [CallFilter 1 [] [Text ''alpha''], CallNext, CallNext, CallClose]
   = \<lparr>s_rows = [''alpha''], s_pos = 1\<rparr>"
  by (simp add: echoTable_Open_def echoCursor_Filter_def echoCursor_Next_def echoCursor_Close_def)

lemma match_run: "match_calls (\<lambda>s. s) matchTable_Open [CallFilter 20 [] [Text ''al''], CallNext, CallNext, CallNext]
   = \<lparr>s_rows = [''alpha'', ''alpine''], s_pos = 2\<rparr>"
  by (simp add: matchTable_Open_def matchCursor_Filter_def matchCursor_Next_def)

lemma dummy_run: "dummy_calls dummyTable_Open [CallNext, CallFilter 1 [] [], CallNext, CallNext, CallNext, CallClose, CallNext]
   = \<lparr>d_rows = [], d_pos = 0\<rparr>"
  by (simp add: dummyTable_Open_def dummyCursor_Filter_def dummyCursor_Next_def dummyCursor_Close_def)

lemma re_run: "re_calls (\<lambda>p. None) reTable_Open [CallFilter 10 [] [Text ''(''], CallNext]
   = \<lparr>s_rows = [], s_pos = 0\<rparr>"
  by (simp add: reTable_Open_def reCursor_Filter_def reCursor_Next_def)

text \<open>At the end of each of these runs \<open>Eof\<close> holds and \<open>Next\<close> changes nothing.\<close>

theorem C9_cursor_position_invariant_witness:
  "csvCursor_Eof (csv_calls (\<lambda>x. []) (csvTable_Open people)
       [CsvFilter people 0 [] [], CsvNext, CsvNext, CsvNext]) \<and>
   csvCursor_Next (csv_calls (\<lambda>x. []) (csvTable_Open people)
       [CsvFilter people 0 [] [], CsvNext, CsvNext, CsvNext])
     = (None, \<lparr>c_rows = t_rows people, c_pos = 2\<rparr>) \<and>
   echoCursor_Eof (echo_calls echoTable_Open
       [CallFilter 1 [] [Text ''alpha''], CallNext, CallNext, CallClose]) \<and>
   echoCursor_Next (echo_calls echoTable_Open
       [CallFilter 1 [] [Text ''alpha''], CallNext, CallNext, CallClose])
     = (None, \<lparr>s_rows = [''alpha''], s_pos = 1\<rparr>) \<and>
   matchCursor_Eof (match_calls (\<lambda>s. s) matchTable_Open
       [CallFilter 20 [] [Text ''al''], CallNext, CallNext, CallNext]) \<and>
   matchCursor_Next (match_calls (\<lambda>s. s) matchTable_Open
       [CallFilter 20 [] [Text ''al''], CallNext, CallNext, CallNext])
     = (None, \<lparr>s_rows = [''alpha'', ''alpine''], s_pos = 2\<rparr>) \<and>
   dummyCursor_Eof (dummy_calls dummyTable_Open
       [CallNext, CallFilter 1 [] [], CallNext, CallNext, CallNext, CallClose, CallNext]) \<and>
   dummyCursor_Next (dummy_calls dummyTable_Open
       [CallNext, CallFilter 1 [] [], CallNext, CallNext, CallNext, CallClose, CallNext])
     = (None, \<lparr>d_rows = [], d_pos = 0\<rparr>) \<and>
   reCursor_Eof (re_calls (\<lambda>p. None) reTable_Open [CallFilter 10 [] [Text ''(''], CallNext]) \<and>
   reCursor_Next (re_calls (\<lambda>p. None) reTable_Open [CallFilter 10 [] [Text ''(''], CallNext])
     = (None, \<lparr>s_rows = [], s_pos = 0\<rparr>)"
  using C9_cursor_position_invariant
    [of "\<lambda>x. []" people "[CsvFilter people 0 [] [], CsvNext, CsvNext, CsvNext]"
        "[CallFilter 1 [] [Text ''alpha''], CallNext, CallNext, CallClose]"
        "\<lambda>s. s" "[CallFilter 20 [] [Text ''al''], CallNext, CallNext, CallNext]"
        "[CallNext, CallFilter 1 [] [], CallNext, CallNext, CallNext, CallClose, CallNext]"
        "\<lambda>p. None" "[CallFilter 10 [] [Text ''(''], CallNext]"]
  unfolding csv_run echo_run match_run dummy_run re_run
  by (simp add: csvCursor_ok_def strCursor_ok_def dummyCursor_ok_def people_def
      csvCursor_Eof_def echoCursor_Eof_def matchCursor_Eof_def dummyCursor_Eof_def reCursor_Eof_def)

subsection \<open>\<open>Column\<close>\<close>

text \<open>
  Claim C8 as stated fails: past \<open>Eof\<close>, or for a column index that is not declared,
  \<open>Column\<close> of \<open>csvCursor\<close>, \<open>echoCursor\<close> and \<open>dummyCursor\<close> returns \<open>nil, nil\<close>: the NULL value and
  no error.
\<close>

theorem C8_column_failure_counterexample:
  "csvCursor_Eof (snd (csvCursor_Next (snd (csvCursor_Next (csvTable_Open people))))) \<and>
   csvCursor_Column people (snd (csvCursor_Next (snd (csvCursor_Next (csvTable_Open people))))) 0
     = Inr Null \<and>
   \<not> csvCursor_Eof (csvTable_Open people) \<and>
   csvCursor_Column people (csvTable_Open people) 2 = Inr Null \<and>
   echoCursor_Column echoTable_Open 1 = Inr Null \<and>
   echoCursor_Eof (snd (echoCursor_Filter echoTable_Open 1 [] [Text ''gamma''])) \<and>
   echoCursor_Column (snd (echoCursor_Filter echoTable_Open 1 [] [Text ''gamma''])) 0 = Inr Null \<and>
   dummyCursor_Eof dummyTable_Open \<and>
   dummyCursor_Column dummyTable_Open 0 = Inr Null \<and>
   dummyCursor_Column (snd (dummyCursor_Filter dummyTable_Open 1 [] [])) 1 = Inr Null"
  by (simp add: people_def csvTable_Open_def csvCursor_Next_def csvCursor_Eof_def
      csvCursor_Column_def echoTable_Open_def echoCursor_Column_def echoCursor_Filter_def
      echoCursor_Eof_def dummyTable_Open_def dummyCursor_Eof_def dummyCursor_Column_def
      dummyCursor_Filter_def)

text \<open>
  Claim C8, amended. \<open>Column(index)\<close> returns the text of the column at the current position
  when the index is in bounds and the cursor is not past \<open>Eof\<close> (\<open>echoCursor\<close> and
  \<open>dummyCursor\<close> have a value for column 0 only). Past \<open>Eof\<close>, and for an index at or above
  the number of declared columns (for \<open>echoCursor\<close> and \<open>dummyCursor\<close>: any index other than
  0), it returns NULL with a nil error.
\<close>

theorem C8_column_value_or_null:
  "(0 \<le> c_pos c \<and> c_pos c < int (length (c_rows c)) \<and> 0 \<le> col \<and>
      col < int (length (t_cols t)) \<and> col < int (length (c_rows c ! nat (c_pos c)))
      \<longrightarrow> csvCursor_Column t c col = Inr (Text (c_rows c ! nat (c_pos c) ! nat col))) \<and>
   (csvCursor_Eof c \<or> col \<ge> int (length (t_cols t)) \<longrightarrow> csvCursor_Column t c col = Inr Null) \<and>
   (col = 0 \<and> 0 \<le> s_pos e \<and> s_pos e < int (length (s_rows e))
      \<longrightarrow> echoCursor_Column e col = Inr (Text (s_rows e ! nat (s_pos e)))) \<and>
   (echoCursor_Eof e \<or> col \<noteq> 0 \<longrightarrow> echoCursor_Column e col = Inr Null) \<and>
   (col = 0 \<and> 0 \<le> d_pos d \<and> d_pos d < int (length (d_rows d))
      \<longrightarrow> dummyCursor_Column d col = Inr (Text (d_val (d_rows d ! nat (d_pos d))))) \<and>
   (dummyCursor_Eof d \<or> col \<noteq> 0 \<longrightarrow> dummyCursor_Column d col = Inr Null)"
  by (auto simp: csvCursor_Column_def csvCursor_Eof_def echoCursor_Column_def echoCursor_Eof_def
      dummyCursor_Column_def dummyCursor_Eof_def)

text \<open>One value and one NULL for each of the three cursors.\<close>

theorem C8_column_value_or_null_witness:
  "csvCursor_Column people (snd (csvCursor_Next (csvTable_Open people))) 1
     = Inr (Text ''bob@example.com'') \<and>
   csvCursor_Column people (csvTable_Open people) 2 = Inr Null \<and>
   echoCursor_Column (snd (echoCursor_Next echoTable_Open)) 0 = Inr (Text ''beta'') \<and>
   echoCursor_Column (snd (echoCursor_Next echoTable_Open)) 3 = Inr Null \<and>
   dummyCursor_Column (snd (dummyCursor_Filter dummyTable_Open 1 [] [])) 0 = Inr (Text ''alpha'') \<and>
   dummyCursor_Column dummyTable_Open 0 = Inr Null"
proof -
  have c: "snd (csvCursor_Next (csvTable_Open people)) = \<lparr>c_rows = t_rows people, c_pos = 1\<rparr>"
    by (simp add: csvCursor_Next_def csvTable_Open_def people_def)
  have e: "snd (echoCursor_Next echoTable_Open) = \<lparr>s_rows = [''alpha'', ''beta'', ''alpine''], s_pos = 1\<rparr>"
    by (simp add: echoCursor_Next_def echoTable_Open_def)
  have d: "snd (dummyCursor_Filter dummyTable_Open 1 [] [])
             = \<lparr>d_rows = [\<lparr>d_rowid = 1, d_val = ''alpha''\<rparr>, \<lparr>d_rowid = 2, d_val = ''beta''\<rparr>], d_pos = 0\<rparr>"
    by (simp add: dummyCursor_Filter_def)
  show ?thesis
    using C8_column_value_or_null [of "\<lparr>c_rows = t_rows people, c_pos = 1\<rparr>" 1 people _ _]
      C8_column_value_or_null [of "csvTable_Open people" 2 people
         "snd (echoCursor_Next echoTable_Open)" dummyTable_Open]
      C8_column_value_or_null [of _ 0 _ "\<lparr>s_rows = [''alpha'', ''beta'', ''alpine''], s_pos = 1\<rparr>"
         "\<lparr>d_rows = [\<lparr>d_rowid = 1, d_val = ''alpha''\<rparr>, \<lparr>d_rowid = 2, d_val = ''beta''\<rparr>], d_pos = 0\<rparr>"]
      C8_column_value_or_null [of _ 3 _ "\<lparr>s_rows = [''alpha'', ''beta'', ''alpine''], s_pos = 1\<rparr>" _]
      C8_column_value_or_null [of _ 0 _ _ dummyTable_Open]
    unfolding c e d
    by (simp add: people_def csvTable_Open_def dummyTable_Open_def dummyCursor_Eof_def)
qed

subsection \<open>\<open>Atoi\<close> reads what \<open>Itoa\<close> prints\<close>

lemma digit_cases: "d < 10 \<Longrightarrow> d \<in> {0, 1, 2, 3, 4, 5, 6, 7, 8, 9::nat}"
  by auto

lemma digit_char:
  assumes "d < 10"
  shows "isDigit (''0123456789'' ! d)" and "of_char (''0123456789'' ! d) - 48 = d"
    and "''0123456789'' ! d \<noteq> CHR ''-''" and "''0123456789'' ! d \<noteq> CHR ''+''"
  using digit_cases [OF assms] by (auto simp: isDigit_def)

lemma digitsVal_append:
  "digitsVal (xs @ ys) acc =
     (case digitsVal xs acc of None \<Rightarrow> None | Some a \<Rightarrow> digitsVal ys a)"
  by (induction xs arbitrary: acc) auto

lemma digitsVal_showNat: "digitsVal (showNat n) 0 = Some n"
proof (induction n rule: showNat.induct)
  case (1 n)
  show ?case
  proof (cases "n < 10")
    case True
    then show ?thesis by (simp add: showNat_lt10 digit_char)
  next
    case False
    then have ih: "digitsVal (showNat (n div 10)) 0 = Some (n div 10)" using 1 by simp
    have "n mod 10 < 10" by simp
    then show ?thesis using False
      by (simp add: showNat_ge10 digitsVal_append ih digit_char)
  qed
qed

lemma showNat_hd: "showNat n \<noteq> [] \<and> hd (showNat n) \<noteq> CHR ''-'' \<and> hd (showNat n) \<noteq> CHR ''+''"
proof (induction n rule: showNat.induct)
  case (1 n)
  show ?case
  proof (cases "n < 10")
    case True
    then show ?thesis by (simp add: showNat_lt10 digit_char)
  next
    case False
    then show ?thesis using 1 by (simp add: showNat_ge10)
  qed
qed

lemma Atoi_Itoa: "0 \<le> k \<Longrightarrow> k < 2 ^ 63 \<Longrightarrow> Atoi (Itoa k) = Some k"
  using showNat_hd [of "nat k"]
  by (simp add: Atoi_def Itoa_def showInt_def digitsVal_showNat Let_def)

subsection \<open>The equality plan of the CSV provider\<close>

lemma csv_scan_rows:
  "0 \<le> c_pos c \<Longrightarrow>
   csv_scan t c =
     map (\<lambda>r. map (\<lambda>col. if col < length r then Inr (Text (r ! col)) else Inl Panic)
                  [0..<length (t_cols t)])
         (drop (nat (c_pos c)) (c_rows c))"
proof (induction t c rule: csv_scan.induct)
  case (1 t c)
  show ?case
  proof (cases "csvCursor_Eof c")
    case True
    then show ?thesis
      by (subst csv_scan.simps) (simp add: csvCursor_Eof_def)
  next
    case False
    then have lt: "nat (c_pos c) < length (c_rows c)"
      using 1(2) by (simp add: csvCursor_Eof_def)
    have nxt: "snd (csvCursor_Next c) = c\<lparr>c_pos := c_pos c + 1\<rparr>"
      using False by (simp add: csvCursor_Next_def csvCursor_Eof_def)
    have ih: "csv_scan t (snd (csvCursor_Next c)) =
        map (\<lambda>r. map (\<lambda>col. if col < length r then Inr (Text (r ! col)) else Inl Panic)
                  [0..<length (t_cols t)])
         (drop (Suc (nat (c_pos c))) (c_rows c))"
      using 1(1)[OF False] 1(2) by (simp add: nxt nat_add_distrib)
    have row: "map (\<lambda>col. csvCursor_Column t c (int col)) [0..<length (t_cols t)] =
        map (\<lambda>col. if col < length (c_rows c ! nat (c_pos c))
                      then Inr (Text (c_rows c ! nat (c_pos c) ! col)) else Inl Panic)
            [0..<length (t_cols t)]"
      using False 1(2) by (auto simp: csvCursor_Column_def csvCursor_Eof_def)
    have dr: "drop (nat (c_pos c)) (c_rows c) =
        c_rows c ! nat (c_pos c) # drop (Suc (nat (c_pos c))) (c_rows c)"
      using lt by (simp add: Cons_nth_drop_Suc)
    show ?thesis
      by (subst csv_scan.simps) (simp add: False ih row dr)
  qed
qed

lemma csv_mark_Some:
  "csv_mark n cs = (cs', Some k) \<Longrightarrow>
     0 \<le> k \<and> k < int n \<and>
     (\<exists>c\<in>set cs'. Column c = k \<and> Op c = OpEQ \<and> Usable c \<and> Omit c \<and> ArgIndex c = 0)"
proof (induction cs arbitrary: cs')
  case Nil
  then show ?case by simp
next
  case (Cons c cs)
  show ?case
  proof (cases "\<not> Usable c \<or> Op c \<noteq> OpEQ \<or> Column c < 0 \<or> Column c \<ge> int n")
    case True
    obtain ds r where m: "csv_mark n cs = (ds, r)" by (cases "csv_mark n cs")
    with True Cons.prems have "r = Some k" "cs' = c # ds" by auto
    with Cons.IH [of ds] m show ?thesis by auto
  next
    case False
    with Cons.prems show ?thesis by auto
  qed
qed

text \<open>Four calls of \<open>Filter\<close> with the plan number 1.\<close>

lemma Filter_people_unparsable:
  "snd (csvCursor_Filter (\<lambda>x. []) people (csvTable_Open people) 1 ''name'' [Text ''Alice''])
     = \<lparr>c_rows = t_rows people, c_pos = 0\<rparr>"
  by (simp add: csvCursor_Filter_def csvTable_Open_def Atoi_def isDigit_def)

lemma Filter_people_no_value:
  "snd (csvCursor_Filter (\<lambda>x. []) people (csvTable_Open people) 1 ''0'' [])
     = \<lparr>c_rows = t_rows people, c_pos = 0\<rparr>"
  by (simp add: csvCursor_Filter_def csvTable_Open_def Atoi_def isDigit_def people_def)

lemma Filter_people_Bob:
  "snd (csvCursor_Filter (\<lambda>x. []) people (csvTable_Open people) 1 ''0'' [Text ''Bob''])
     = \<lparr>c_rows = [[''Bob'', ''bob@example.com'']], c_pos = 0\<rparr>"
  by (simp add: csvCursor_Filter_def csvTable_Open_def Atoi_def isDigit_def people_def)

lemma Filter_people_Integer:
  "snd (csvCursor_Filter (\<lambda>x. []) numbers (csvTable_Open numbers) 1 ''0'' [Integer 10])
     = \<lparr>c_rows = [[''10'', ''ten'']], c_pos = 0\<rparr>"
  by (simp add: csvCursor_Filter_def csvTable_Open_def Atoi_def isDigit_def numbers_def
      showInt_def showNat_lt10 showNat_ge10)

text \<open>
  Claim C1 as stated fails. With an \<open>idxStr\<close> that is no number, and with an empty argument
  vector, the scan after \<open>Filter(1, ...)\<close> yields every row, Bob's too when Alice is asked
  for. With the integer 10 as the value the scan yields the row whose column is the text
  \<open>10\<close>, which is not the integer.
\<close>

theorem C1_filter_not_enforced_counterexample:
  "csv_scan people
     (snd (csvCursor_Filter (\<lambda>x. []) people (csvTable_Open people) 1 ''name'' [Text ''Alice'']))
     = [[Inr (Text ''Alice''), Inr (Text ''alice@example.com'')],
        [Inr (Text ''Bob''), Inr (Text ''bob@example.com'')]] \<and>
   csv_scan people
     (snd (csvCursor_Filter (\<lambda>x. []) people (csvTable_Open people) 1 ''0'' []))
     = [[Inr (Text ''Alice''), Inr (Text ''alice@example.com'')],
        [Inr (Text ''Bob''), Inr (Text ''bob@example.com'')]] \<and>
   csv_scan numbers
     (snd (csvCursor_Filter (\<lambda>x. []) numbers (csvTable_Open numbers) 1 ''0'' [Integer 10]))
     = [[Inr (Text ''10''), Inr (Text ''ten'')]] \<and>
   Text ''10'' \<noteq> Integer 10"
  unfolding Filter_people_unparsable Filter_people_no_value Filter_people_Integer
  by (simp add: csv_scan_rows) (simp add: people_def numbers_def)

text \<open>
  Claim C1, amended. When \<open>csvTable.BestIndex\<close> marks a usable EQ constraint with
  \<open>Omit = true\<close> (plan \<open>IdxNum = 1\<close>), its \<open>IdxStr\<close> is the decimal text of the constraint's column,
  a declared one. For \<open>Filter(1, idxStr, vals)\<close> with an \<open>idxStr\<close> that parses to a declared
  column and a non-empty \<open>vals\<close>, every row the scan yields has in that column the text
  \<open>fmt.Sprint(vals[0])\<close>; for a text value that is the value itself. With an \<open>idxStr\<close> that
  does not parse to a declared column, or with an empty \<open>vals\<close>, \<open>Filter\<close> returns nil and the
  cursor holds every row of the table.
\<close>

theorem C1_filter_enforces_equality:
  "(Atoi idxStr = Some col \<and> 0 \<le> col \<and> col < int (length (t_cols t)) \<and> vals \<noteq> [] \<longrightarrow>
      (\<forall>row \<in> set (csv_scan t (snd (csvCursor_Filter ff t c 1 idxStr vals))).
          row ! nat col = Inr (Text (Sprint ff (hd vals))))) \<and>
   (Atoi idxStr = None \<or> (\<exists>k. Atoi idxStr = Some k \<and> (k < 0 \<or> k \<ge> int (length (t_cols t))))
      \<or> vals = [] \<longrightarrow>
      csvCursor_Filter ff t c 1 idxStr vals = (None, \<lparr>c_rows = t_rows t, c_pos = 0\<rparr>)) \<and>
   (length (t_cols t) < 2 ^ 63 \<and> csvTable_BestIndex t info = Inr info' \<and>
    IdxNum info' = 1 \<longrightarrow>
      (\<exists>k. Atoi (IdxStr info') = Some k \<and> 0 \<le> k \<and> k < int (length (t_cols t)) \<and>
           (\<exists>m\<in>set (Constraints info').
               Column m = k \<and> Op m = OpEQ \<and> Usable m \<and> Omit m \<and> ArgIndex m = 0)))"
proof (intro conjI impI)
  assume a: "Atoi idxStr = Some col \<and> 0 \<le> col \<and> col < int (length (t_cols t)) \<and> vals \<noteq> []"
  then obtain v vs where vals: "vals = v # vs" by (cases vals) auto
  let ?c = "snd (csvCursor_Filter ff t c 1 idxStr vals)"
  have f: "?c = \<lparr>c_rows = filter (\<lambda>r. col < int (length r) \<and> r ! nat col = Sprint ff v) (t_rows t),
                 c_pos = 0\<rparr>"
    using a by (cases c) (simp add: csvCursor_Filter_def vals)
  have scan: "csv_scan t ?c =
     map (\<lambda>r. map (\<lambda>col. if col < length r then Inr (Text (r ! col)) else Inl Panic)
                  [0..<length (t_cols t)])
         (filter (\<lambda>r. col < int (length r) \<and> r ! nat col = Sprint ff v) (t_rows t))"
    by (subst csv_scan_rows) (simp_all add: f)
  show "\<forall>row \<in> set (csv_scan t ?c). row ! nat col = Inr (Text (Sprint ff (hd vals)))"
  proof
    fix row assume "row \<in> set (csv_scan t ?c)"
    then obtain r where r: "col < int (length r)" "r ! nat col = Sprint ff v"
      and row: "row = map (\<lambda>col. if col < length r then Inr (Text (r ! col)) else Inl Panic)
                  [0..<length (t_cols t)]"
      unfolding scan by auto
    have "nat col < length (t_cols t)" "nat col < length r" using a r(1) by auto
    then show "row ! nat col = Inr (Text (Sprint ff (hd vals)))"
      by (simp add: row r(2) vals)
  qed
next
  assume "Atoi idxStr = None \<or> (\<exists>k. Atoi idxStr = Some k \<and> (k < 0 \<or> k \<ge> int (length (t_cols t))))
      \<or> vals = []"
  then show "csvCursor_Filter ff t c 1 idxStr vals = (None, \<lparr>c_rows = t_rows t, c_pos = 0\<rparr>)"
    by (cases c) (auto simp: csvCursor_Filter_def Let_def split: option.splits list.splits)
next
  assume b: "length (t_cols t) < 2 ^ 63 \<and> csvTable_BestIndex t info = Inr info' \<and>
    IdxNum info' = 1"
  obtain cs' r where m: "csv_mark (length (t_cols t)) (Constraints info) = (cs', r)"
    by (cases "csv_mark (length (t_cols t)) (Constraints info)")
  show "\<exists>k. Atoi (IdxStr info') = Some k \<and> 0 \<le> k \<and> k < int (length (t_cols t)) \<and>
           (\<exists>m\<in>set (Constraints info').
               Column m = k \<and> Op m = OpEQ \<and> Usable m \<and> Omit m \<and> ArgIndex m = 0)"
  proof (cases r)
    case None
    with b m show ?thesis by (auto simp: csvTable_BestIndex_def)
  next
    case (Some k)
    with b m have i: "info' = info\<lparr>Constraints := cs', IdxNum := 1, IdxStr := Itoa k\<rparr>"
      by (auto simp: csvTable_BestIndex_def)
    from csv_mark_Some [OF m [unfolded Some]]
    have k: "0 \<le> k" "k < int (length (t_cols t))"
      and ex: "\<exists>c\<in>set cs'. Column c = k \<and> Op c = OpEQ \<and> Usable c \<and> Omit c \<and> ArgIndex c = 0"
      by auto
    have "int (length (t_cols t)) < 2 ^ 63"
      using b by (metis of_nat_less_iff of_nat_numeral of_nat_power)
    then have "k < 2 ^ 63" using k(2) by linarith
    then have "Atoi (Itoa k) = Some k" using k(1) by (simp add: Atoi_Itoa)
    then show ?thesis using k ex by (simp add: i)
  qed
qed

text \<open>
  The plan for \<open>name = 'Bob'\<close> on the example table, the scan it gives, and a \<open>Filter\<close> with
  an \<open>idxStr\<close> that is no number.
\<close>

theorem C1_filter_enforces_equality_witness:
  "Atoi ''0'' = Some 0 \<and>
   csv_scan people
     (snd (csvCursor_Filter (\<lambda>x. []) people (csvTable_Open people) 1 ''0'' [Text ''Bob'']))
     = [[Inr (Text ''Bob''), Inr (Text ''bob@example.com'')]] \<and>
   csvCursor_Filter (\<lambda>x. []) people (csvTable_Open people) 1 ''name'' [Text ''Alice'']
     = (None, \<lparr>c_rows = t_rows people, c_pos = 0\<rparr>) \<and>
   csvTable_BestIndex people
     \<lparr>Constraints = [\<lparr>Column = 1, Op = OpGT, Usable = True, ArgIndex = -1, Omit = False\<rparr>,
                     \<lparr>Column = 0, Op = OpEQ, Usable = True, ArgIndex = -1, Omit = False\<rparr>],
      IdxNum = 0, IdxStr = []\<rparr>
     = Inr \<lparr>Constraints = [\<lparr>Column = 1, Op = OpGT, Usable = True, ArgIndex = -1, Omit = False\<rparr>,
                         \<lparr>Column = 0, Op = OpEQ, Usable = True, ArgIndex = 0, Omit = True\<rparr>],
           IdxNum = 1, IdxStr = ''0''\<rparr>"
proof -
  have a: "Atoi ''0'' = Some 0" by (simp add: Atoi_def isDigit_def)
  have n: "Atoi ''name'' = None" by (simp add: Atoi_def isDigit_def)
  have b: "csvTable_BestIndex people
     \<lparr>Constraints = [\<lparr>Column = 1, Op = OpGT, Usable = True, ArgIndex = -1, Omit = False\<rparr>,
                     \<lparr>Column = 0, Op = OpEQ, Usable = True, ArgIndex = -1, Omit = False\<rparr>],
      IdxNum = 0, IdxStr = []\<rparr>
     = Inr \<lparr>Constraints = [\<lparr>Column = 1, Op = OpGT, Usable = True, ArgIndex = -1, Omit = False\<rparr>,
                         \<lparr>Column = 0, Op = OpEQ, Usable = True, ArgIndex = 0, Omit = True\<rparr>],
           IdxNum = 1, IdxStr = ''0''\<rparr>"
    by (simp add: csvTable_BestIndex_def people_def Itoa_def showInt_def showNat_lt10)
  have s: "csv_scan people \<lparr>c_rows = [[''Bob'', ''bob@example.com'']], c_pos = 0\<rparr>
             = [[Inr (Text ''Bob''), Inr (Text ''bob@example.com'')]]"
    by (simp add: csv_scan_rows) (simp add: people_def)
  show ?thesis
    using C1_filter_enforces_equality
      [of "''0''" 0 people "[Text ''Bob'']" "\<lambda>x. []" "csvTable_Open people"
          "\<lparr>Constraints = [\<lparr>Column = 1, Op = OpGT, Usable = True, ArgIndex = -1, Omit = False\<rparr>,
                     \<lparr>Column = 0, Op = OpEQ, Usable = True, ArgIndex = -1, Omit = False\<rparr>],
      IdxNum = 0, IdxStr = []\<rparr>"
          "\<lparr>Constraints = [\<lparr>Column = 1, Op = OpGT, Usable = True, ArgIndex = -1, Omit = False\<rparr>,
                         \<lparr>Column = 0, Op = OpEQ, Usable = True, ArgIndex = 0, Omit = True\<rparr>],
           IdxNum = 1, IdxStr = ''0''\<rparr>"]
      C1_filter_enforces_equality
      [of "''name''" 0 people "[Text ''Alice'']" "\<lambda>x. []" "csvTable_Open people"]
    unfolding Filter_people_Bob s
    by (simp add: a n b)
qed

subsection \<open>The dispatcher: plans out of range\<close>

lemma hasPrefix_append: "hasPrefix a p \<Longrightarrow> hasPrefix (a @ b) p"
  by (induction a p rule: hasPrefix.induct) auto

lemma Contains_append1: "Contains a sub \<Longrightarrow> Contains (a @ b) sub"
proof (induction a)
  case Nil
  then show ?case by (cases b) auto
next
  case (Cons c cs)
  then show ?case using hasPrefix_append [of "c # cs" sub b] by auto
qed

lemma Contains_append2: "Contains b sub \<Longrightarrow> Contains (a @ b) sub"
  by (induction a) auto

lemma overflow_message:
  "TestVtabIdxNumOverflowError_accepts
     (''vtab: BestIndex: IdxNum '' @ showInt n @ '' does not fit in int32'')"
proof -
  have "Contains ''vtab: BestIndex: IdxNum '' ''IdxNum''" by simp
  then have 1: "Contains (''vtab: BestIndex: IdxNum '' @ showInt n @ '' does not fit in int32'') ''IdxNum''"
    by (rule Contains_append1)
  have "Contains '' does not fit in int32'' ''int32''" by simp
  then have "Contains (showInt n @ '' does not fit in int32'') ''int32''"
    by (rule Contains_append2)
  then have 2: "Contains (''vtab: BestIndex: IdxNum '' @ showInt n @ '' does not fit in int32'') ''int32''"
    by (rule Contains_append2)
  from 1 2 show ?thesis by (simp only: TestVtabIdxNumOverflowError_accepts_def simp_thms)
qed

text \<open>
  Claim C2. When \<open>BestIndex\<close> leaves an \<open>IdxNum\<close> outside the signed 32-bit range, \<open>2^31\<close> in
  particular, the dispatcher returns an error whose text names \<open>IdxNum\<close> and \<open>int32\<close>, and
  no plan is delivered: every plan the dispatcher delivers has an \<open>IdxNum\<close> in range.
\<close>

theorem C2_IdxNum_out_of_range_rejected:
  "(bestIndex draft = Inr info \<and> (IdxNum info < - (2 ^ 31) \<or> 2 ^ 31 \<le> IdxNum info) \<longrightarrow>
      (\<exists>msg. dispatchBestIndex bestIndex draft = Inl (Err msg) \<and>
             Contains msg ''IdxNum'' \<and> Contains msg ''int32'')) \<and>
   (dispatchBestIndex bestIndex draft = Inr plan \<longrightarrow>
      - (2 ^ 31) \<le> IdxNum plan \<and> IdxNum plan < 2 ^ 31)"
proof (rule conjI; rule impI)
  assume a: "bestIndex draft = Inr info \<and> (IdxNum info < - (2 ^ 31) \<or> 2 ^ 31 \<le> IdxNum info)"
  then have "\<not> fitsInt32 (IdxNum info)" by (auto simp: fitsInt32_def)
  then have "dispatchBestIndex bestIndex draft =
      Inl (Err (''vtab: BestIndex: IdxNum '' @ showInt (IdxNum info) @ '' does not fit in int32''))"
    using a by (simp add: dispatchBestIndex_def)
  then show "\<exists>msg. dispatchBestIndex bestIndex draft = Inl (Err msg) \<and>
             Contains msg ''IdxNum'' \<and> Contains msg ''int32''"
    using overflow_message [of "IdxNum info"]
    by (simp only: TestVtabIdxNumOverflowError_accepts_def) blast
next
  assume "dispatchBestIndex bestIndex draft = Inr plan"
  then have "fitsInt32 (IdxNum plan)"
    by (auto simp: dispatchBestIndex_def split: sum.splits if_splits)
  then show "- (2 ^ 31) \<le> IdxNum plan \<and> IdxNum plan < 2 ^ 31"
    by (simp add: fitsInt32_def)
qed

text \<open>
  \<open>overflowIdxTable.BestIndex\<close> sets \<open>2^31\<close>: the query fails with a text the test accepts. A
  plan in range is delivered.
\<close>

theorem C2_IdxNum_out_of_range_rejected_witness:
  "overflowIdxTable_BestIndex \<lparr>Constraints = [], IdxNum = 0, IdxStr = []\<rparr>
     = Inr \<lparr>Constraints = [], IdxNum = 2 ^ 31, IdxStr = []\<rparr> \<and>
   dispatchBestIndex overflowIdxTable_BestIndex \<lparr>Constraints = [], IdxNum = 0, IdxStr = []\<rparr>
     = Inl (Err ''vtab: BestIndex: IdxNum 2147483648 does not fit in int32'') \<and>
   TestVtabIdxNumOverflowError_accepts ''vtab: BestIndex: IdxNum 2147483648 does not fit in int32'' \<and>
   dispatchBestIndex echoTable_BestIndex \<lparr>Constraints = [], IdxNum = 7, IdxStr = []\<rparr>
     = Inr \<lparr>Constraints = [], IdxNum = 0, IdxStr = []\<rparr>"
proof -
  have o: "overflowIdxTable_BestIndex \<lparr>Constraints = [], IdxNum = 0, IdxStr = []\<rparr>
     = Inr \<lparr>Constraints = [], IdxNum = 2 ^ 31, IdxStr = []\<rparr>"
    by (simp add: overflowIdxTable_BestIndex_def)
  have d: "dispatchBestIndex overflowIdxTable_BestIndex \<lparr>Constraints = [], IdxNum = 0, IdxStr = []\<rparr>
     = Inl (Err ''vtab: BestIndex: IdxNum 2147483648 does not fit in int32'')"
    by (simp add: dispatchBestIndex_def overflowIdxTable_BestIndex_def fitsInt32_def
        showInt_def showNat_lt10 showNat_ge10)
  have e: "dispatchBestIndex echoTable_BestIndex \<lparr>Constraints = [], IdxNum = 7, IdxStr = []\<rparr>
     = Inr \<lparr>Constraints = [], IdxNum = 0, IdxStr = []\<rparr>"
    by (simp add: dispatchBestIndex_def echoTable_BestIndex_def fitsInt32_def denseArgIndex_def
        requestedSlots_def)
  show ?thesis
    using C2_IdxNum_out_of_range_rejected
      [of overflowIdxTable_BestIndex "\<lparr>Constraints = [], IdxNum = 0, IdxStr = []\<rparr>"
          "\<lparr>Constraints = [], IdxNum = 2 ^ 31, IdxStr = []\<rparr>" _]
      C2_IdxNum_out_of_range_rejected
      [of echoTable_BestIndex "\<lparr>Constraints = [], IdxNum = 7, IdxStr = []\<rparr>" _
          "\<lparr>Constraints = [], IdxNum = 0, IdxStr = []\<rparr>"]
    unfolding o d e
    by (simp add: TestVtabIdxNumOverflowError_accepts_def)
qed

subsection \<open>The dispatcher: the argument vector\<close>

lemma slots_of_zip:
  "length xs = length ys \<Longrightarrow>
     map fst (filter (\<lambda>p. 0 \<le> fst p) (zip xs ys)) = filter (\<lambda>k. (0::int) \<le> k) xs"
  by (induction xs ys rule: list_induct2) auto

lemma requestedSlots_zip:
  "length rhs = length cs \<Longrightarrow>
     map fst (filter (\<lambda>p. 0 \<le> fst p) (zip (map ArgIndex cs) rhs)) = requestedSlots cs"
  by (simp add: slots_of_zip requestedSlots_def filter_map comp_def)

lemma dense_slots_set:
  assumes "distinct ks" and "\<forall>k\<in>set ks. 0 \<le> k \<and> k < int (length ks)"
  shows "set ks = int ` {0..<length ks}"
proof -
  have sub: "set ks \<subseteq> int ` {0..<length ks}"
  proof
    fix k assume "k \<in> set ks"
    then have "0 \<le> k" "k < int (length ks)" using assms(2) by auto
    then have "nat k \<in> {0..<length ks}" "k = int (nat k)" by auto
    then show "k \<in> int ` {0..<length ks}" by blast
  qed
  have "card (set ks) = length ks" using assms(1) by (simp add: distinct_card)
  moreover have "card (int ` {0..<length ks}) = length ks"
    by (simp add: card_image)
  ultimately show ?thesis
    using sub by (metis card_subset_eq finite_atLeastLessThan finite_imageI)
qed

lemma sorted_dense_keys:
  assumes "sorted ks" "distinct ks" "\<forall>k\<in>set ks. 0 \<le> k \<and> k < int (length ks)"
  shows "ks = map int [0..<length ks]"
proof (rule sorted_distinct_set_unique)
  show "sorted ks" "distinct ks" by fact+
  show "sorted (map int [0..<length ks])"
    by (simp add: sorted_map sorted_wrt_iff_nth_less)
  show "distinct (map int [0..<length ks])"
    by (simp add: distinct_map)
  show "set ks = set (map int [0..<length ks])"
    using dense_slots_set [OF assms(2,3)] by simp
qed

lemma filterArgv_dense:
  assumes len: "length rhs = length cs" and dense: "denseArgIndex cs"
  shows "length (filterArgv cs rhs) = length (requestedSlots cs)"
    and "i < length cs \<Longrightarrow> 0 \<le> ArgIndex (cs ! i) \<Longrightarrow>
           nat (ArgIndex (cs ! i)) < length (filterArgv cs rhs) \<and>
           filterArgv cs rhs ! nat (ArgIndex (cs ! i)) = rhs ! i"
proof -
  let ?ps = "filter (\<lambda>p. 0 \<le> fst p) (zip (map ArgIndex cs) rhs)"
  let ?L = "sort_key fst ?ps"
  let ?n = "length (requestedSlots cs)"
  have keys: "map fst ?ps = requestedSlots cs" using len by (rule requestedSlots_zip)
  have lenL: "length ?L = ?n" using keys by (metis length_map length_sort)
  have dk: "distinct (requestedSlots cs)"
    and rk: "\<forall>k\<in>set (requestedSlots cs). 0 \<le> k \<and> k < int ?n"
    using dense by (auto simp: denseArgIndex_def list_all_iff requestedSlots_def)
  have setL: "set (map fst ?L) = set (requestedSlots cs)"
    using keys by (metis set_map set_sort)
  have lenk: "length (map fst ?L) = ?n" using lenL by simp
  have dL: "distinct (map fst ?L)"
    using setL lenk dk by (metis card_distinct distinct_card)
  have sL: "sorted (map fst ?L)" by (rule sorted_sort_key)
  have "\<forall>k\<in>set (map fst ?L). 0 \<le> k \<and> k < int (length (map fst ?L))"
    using rk setL lenk by simp
  from sorted_dense_keys [OF sL dL this]
  have kL: "map fst ?L = map int [0..<?n]" using lenk by simp
  have lenps: "length ?ps = ?n" using keys by (metis length_map)
  show "length (filterArgv cs rhs) = ?n"
    by (simp add: filterArgv_def lenps)
  assume i: "i < length cs" and nn: "0 \<le> ArgIndex (cs ! i)"
  have "(ArgIndex (cs ! i), rhs ! i) \<in> set (zip (map ArgIndex cs) rhs)"
    using i len by (metis (no_types, lifting) in_set_zip fst_conv snd_conv length_map nth_map)
  then have "(ArgIndex (cs ! i), rhs ! i) \<in> set ?L" using nn by simp
  then obtain j where j: "j < length ?L" "?L ! j = (ArgIndex (cs ! i), rhs ! i)"
    by (meson in_set_conv_nth)
  have "map fst ?L ! j = int j" using j(1) lenL by (simp only: kL) simp
  then have "ArgIndex (cs ! i) = int j" using j by simp
  then have "nat (ArgIndex (cs ! i)) = j" by simp
  then show "nat (ArgIndex (cs ! i)) < length (filterArgv cs rhs) \<and>
           filterArgv cs rhs ! nat (ArgIndex (cs ! i)) = rhs ! i"
    using j lenps by (simp add: filterArgv_def)
qed

lemma argIndex_plan:
  "argIndexTable_BestIndex query_c1_c2 =
     Inr \<lparr>Constraints = [\<lparr>Column = 0, Op = OpEQ, Usable = True, ArgIndex = 0, Omit = False\<rparr>,
                         \<lparr>Column = 1, Op = OpEQ, Usable = True, ArgIndex = 1, Omit = False\<rparr>],
          IdxNum = 0, IdxStr = []\<rparr>"
  by (simp add: argIndexTable_BestIndex_def query_c1_c2_def)

lemma argIndex_dispatch:
  "dispatchBestIndex argIndexTable_BestIndex query_c1_c2 =
     Inr \<lparr>Constraints = [\<lparr>Column = 0, Op = OpEQ, Usable = True, ArgIndex = 0, Omit = False\<rparr>,
                         \<lparr>Column = 1, Op = OpEQ, Usable = True, ArgIndex = 1, Omit = False\<rparr>],
          IdxNum = 0, IdxStr = []\<rparr>"
  by (simp add: dispatchBestIndex_def argIndex_plan fitsInt32_def denseArgIndex_def requestedSlots_def)

lemma argIndex_argv:
  "filterArgv [\<lparr>Column = 0, Op = OpEQ, Usable = True, ArgIndex = 0, Omit = False\<rparr>,
               \<lparr>Column = 1, Op = OpEQ, Usable = True, ArgIndex = 1, Omit = False\<rparr>]
              [Integer 10, Integer 20] = [Integer 10, Integer 20]"
  by (simp add: filterArgv_def)

lemma csv_plan:
  "csvTable_BestIndex people query_email_name =
     Inr \<lparr>Constraints = [\<lparr>Column = 1, Op = OpGT, Usable = True, ArgIndex = -1, Omit = False\<rparr>,
                         \<lparr>Column = 0, Op = OpEQ, Usable = True, ArgIndex = 0, Omit = True\<rparr>],
          IdxNum = 1, IdxStr = ''0''\<rparr>"
  by (simp add: csvTable_BestIndex_def people_def query_email_name_def Itoa_def showInt_def showNat_lt10)

lemma csv_dispatch:
  "dispatchBestIndex (csvTable_BestIndex people) query_email_name =
     Inr \<lparr>Constraints = [\<lparr>Column = 1, Op = OpGT, Usable = True, ArgIndex = -1, Omit = False\<rparr>,
                         \<lparr>Column = 0, Op = OpEQ, Usable = True, ArgIndex = 0, Omit = True\<rparr>],
          IdxNum = 1, IdxStr = ''0''\<rparr>"
  by (simp add: dispatchBestIndex_def csv_plan fitsInt32_def denseArgIndex_def requestedSlots_def)

lemma csv_argv:
  "filterArgv [\<lparr>Column = 1, Op = OpGT, Usable = True, ArgIndex = -1, Omit = False\<rparr>,
               \<lparr>Column = 0, Op = OpEQ, Usable = True, ArgIndex = 0, Omit = True\<rparr>]
              [Text ''a'', Text ''Bob''] = [Text ''Bob'']"
  by (simp add: filterArgv_def)

text \<open>
  Claim C3 as stated fails on the repository's own test. \<open>argIndexTable.BestIndex\<close> gives the
  first constraint of \<open>WHERE c1 = ? AND c2 = ?\<close> the \<open>ArgIndex\<close> zero, and
  \<open>TestVtabConstraintArgIndex\<close> demands that \<open>Filter\<close> receives its value 10 at position 0,
  before the 20 of the second constraint. Were the zero a mark for "not requested", the
  vector would hold the 20 alone, which the test refuses.
\<close>

theorem C3_zero_ArgIndex_is_delivered_counterexample:
  "argIndexTable_BestIndex query_c1_c2 =
     Inr \<lparr>Constraints = [\<lparr>Column = 0, Op = OpEQ, Usable = True, ArgIndex = 0, Omit = False\<rparr>,
                         \<lparr>Column = 1, Op = OpEQ, Usable = True, ArgIndex = 1, Omit = False\<rparr>],
          IdxNum = 0, IdxStr = []\<rparr> \<and>
   filterArgv [\<lparr>Column = 0, Op = OpEQ, Usable = True, ArgIndex = 0, Omit = False\<rparr>,
               \<lparr>Column = 1, Op = OpEQ, Usable = True, ArgIndex = 1, Omit = False\<rparr>]
              [Integer 10, Integer 20] = [Integer 10, Integer 20] \<and>
   TestVtabConstraintArgIndex_accepts [Integer 10, Integer 20] \<and>
   \<not> TestVtabConstraintArgIndex_accepts [Integer 20]"
  by (simp add: argIndex_plan argIndex_argv TestVtabConstraintArgIndex_accepts_def)

text \<open>
  Claim C3, amended. For every \<open>BestIndex\<close> output with well-formed slots, a constraint
  whose \<open>ArgIndex\<close> is \<open>k \<ge> 0\<close>, zero included, has its comparison value at the 0-based position
  \<open>k\<close> of the argument vector delivered to \<open>Filter\<close>; a zero \<open>ArgIndex\<close> asks for position 0.
  The vector holds one value for each constraint with \<open>ArgIndex \<ge> 0\<close> and none for the others:
  a constraint that is not requested carries a negative \<open>ArgIndex\<close>.
\<close>

theorem C3_ArgIndex_is_position:
  "denseArgIndex cs \<and> length rhs = length cs \<longrightarrow>
     (\<forall>i<length cs. ArgIndex (cs ! i) = 0 \<longrightarrow> filterArgv cs rhs ! 0 = rhs ! i) \<and>
     (\<forall>i<length cs. 0 \<le> ArgIndex (cs ! i) \<longrightarrow>
         nat (ArgIndex (cs ! i)) < length (filterArgv cs rhs) \<and>
         filterArgv cs rhs ! nat (ArgIndex (cs ! i)) = rhs ! i) \<and>
     length (filterArgv cs rhs) = length (filter (\<lambda>c. 0 \<le> ArgIndex c) cs)"
proof
  assume a: "denseArgIndex cs \<and> length rhs = length cs"
  then have d: "denseArgIndex cs" and l: "length rhs = length cs" by auto
  have pos: "\<forall>i<length cs. 0 \<le> ArgIndex (cs ! i) \<longrightarrow>
         nat (ArgIndex (cs ! i)) < length (filterArgv cs rhs) \<and>
         filterArgv cs rhs ! nat (ArgIndex (cs ! i)) = rhs ! i"
    using filterArgv_dense(2) [OF l d] by blast
  have zero: "\<forall>i<length cs. ArgIndex (cs ! i) = 0 \<longrightarrow> filterArgv cs rhs ! 0 = rhs ! i"
  proof (intro allI impI)
    fix i assume "i < length cs" "ArgIndex (cs ! i) = 0"
    with pos show "filterArgv cs rhs ! 0 = rhs ! i" by force
  qed
  have "length (filterArgv cs rhs) = length (filter (\<lambda>c. 0 \<le> ArgIndex c) cs)"
    using filterArgv_dense(1) [OF l d] by (simp add: requestedSlots_def)
  with pos zero show "(\<forall>i<length cs. ArgIndex (cs ! i) = 0 \<longrightarrow> filterArgv cs rhs ! 0 = rhs ! i) \<and>
     (\<forall>i<length cs. 0 \<le> ArgIndex (cs ! i) \<longrightarrow>
         nat (ArgIndex (cs ! i)) < length (filterArgv cs rhs) \<and>
         filterArgv cs rhs ! nat (ArgIndex (cs ! i)) = rhs ! i) \<and>
     length (filterArgv cs rhs) = length (filter (\<lambda>c. 0 \<le> ArgIndex c) cs)"
    by blast
qed

text \<open>
  The plan of the CSV provider for \<open>WHERE email > ? AND name = ?\<close>: the value of the one
  constraint with slot 0 is the whole vector.
\<close>

theorem C3_ArgIndex_is_position_witness:
  "denseArgIndex [\<lparr>Column = 1, Op = OpGT, Usable = True, ArgIndex = -1, Omit = False\<rparr>,
                  \<lparr>Column = 0, Op = OpEQ, Usable = True, ArgIndex = 0, Omit = True\<rparr>] \<and>
   filterArgv [\<lparr>Column = 1, Op = OpGT, Usable = True, ArgIndex = -1, Omit = False\<rparr>,
               \<lparr>Column = 0, Op = OpEQ, Usable = True, ArgIndex = 0, Omit = True\<rparr>]
              [Text ''a'', Text ''Bob''] ! 0 = Text ''Bob'' \<and>
   length (filterArgv [\<lparr>Column = 1, Op = OpGT, Usable = True, ArgIndex = -1, Omit = False\<rparr>,
               \<lparr>Column = 0, Op = OpEQ, Usable = True, ArgIndex = 0, Omit = True\<rparr>]
              [Text ''a'', Text ''Bob'']) = 1"
proof -
  have d: "denseArgIndex [\<lparr>Column = 1, Op = OpGT, Usable = True, ArgIndex = -1, Omit = False\<rparr>,
                  \<lparr>Column = 0, Op = OpEQ, Usable = True, ArgIndex = 0, Omit = True\<rparr>]"
    by (simp add: denseArgIndex_def requestedSlots_def)
  have "length [Text ''a'', Text ''Bob''] =
        length [\<lparr>Column = 1, Op = OpGT, Usable = True, ArgIndex = -1, Omit = False\<rparr>,
                  \<lparr>Column = 0, Op = OpEQ, Usable = True, ArgIndex = 0, Omit = True\<rparr>]" by simp
  with d C3_ArgIndex_is_position
      [of "[\<lparr>Column = 1, Op = OpGT, Usable = True, ArgIndex = -1, Omit = False\<rparr>,
                  \<lparr>Column = 0, Op = OpEQ, Usable = True, ArgIndex = 0, Omit = True\<rparr>]"
          "[Text ''a'', Text ''Bob'']"]
  have "(\<forall>i<2. ArgIndex ([\<lparr>Column = 1, Op = OpGT, Usable = True, ArgIndex = -1, Omit = False\<rparr>,
                  \<lparr>Column = 0, Op = OpEQ, Usable = True, ArgIndex = 0, Omit = True\<rparr>] ! i) = 0 \<longrightarrow>
          filterArgv [\<lparr>Column = 1, Op = OpGT, Usable = True, ArgIndex = -1, Omit = False\<rparr>,
               \<lparr>Column = 0, Op = OpEQ, Usable = True, ArgIndex = 0, Omit = True\<rparr>]
              [Text ''a'', Text ''Bob''] ! 0 = [Text ''a'', Text ''Bob''] ! i)"
    and len: "length (filterArgv [\<lparr>Column = 1, Op = OpGT, Usable = True, ArgIndex = -1, Omit = False\<rparr>,
               \<lparr>Column = 0, Op = OpEQ, Usable = True, ArgIndex = 0, Omit = True\<rparr>]
              [Text ''a'', Text ''Bob'']) = 1"
    by simp_all
  then have "filterArgv [\<lparr>Column = 1, Op = OpGT, Usable = True, ArgIndex = -1, Omit = False\<rparr>,
               \<lparr>Column = 0, Op = OpEQ, Usable = True, ArgIndex = 0, Omit = True\<rparr>]
              [Text ''a'', Text ''Bob''] ! 0 = [Text ''a'', Text ''Bob''] ! 1"
    by (metis (no_types, lifting) One_nat_def Suc_1 lessI nth_Cons_0 nth_Cons_Suc
        Constraint.select_convs(4))
  with d len show ?thesis by simp
qed

lemma dispatchBestIndex_Inr:
  "dispatchBestIndex bestIndex draft = Inr plan \<Longrightarrow>
     bestIndex draft = Inr plan \<and> fitsInt32 (IdxNum plan) \<and> denseArgIndex (Constraints plan)"
  by (auto simp: dispatchBestIndex_def split: sum.splits if_splits)

text \<open>
  Claim C4. For every plan the dispatcher delivers, \<open>Filter\<close> is called with the \<open>IdxNum\<close> and
  \<open>IdxStr\<close> that \<open>BestIndex\<close> produced and with an argument vector whose length is the number
  of distinct \<open>ArgIndex\<close> slots assigned; the value of the constraint with slot \<open>k\<close> is at
  position \<open>k\<close>. \<open>rhs\<close> lists the comparison values of the constraints.
\<close>

theorem C4_filter_receives_plan_and_arguments:
  "dispatchBestIndex bestIndex draft = Inr plan \<and> length rhs = length (Constraints plan) \<longrightarrow>
     bestIndex draft = Inr plan \<and>
     fst (dispatchFilter plan rhs) = IdxNum plan \<and>
     fst (snd (dispatchFilter plan rhs)) = IdxStr plan \<and>
     length (snd (snd (dispatchFilter plan rhs)))
       = card (ArgIndex ` {c \<in> set (Constraints plan). 0 \<le> ArgIndex c}) \<and>
     (\<forall>i<length (Constraints plan). 0 \<le> ArgIndex (Constraints plan ! i) \<longrightarrow>
         snd (snd (dispatchFilter plan rhs)) ! nat (ArgIndex (Constraints plan ! i)) = rhs ! i)"
proof
  assume a: "dispatchBestIndex bestIndex draft = Inr plan \<and> length rhs = length (Constraints plan)"
  let ?cs = "Constraints plan"
  from a dispatchBestIndex_Inr [of bestIndex draft plan]
  have b: "bestIndex draft = Inr plan" and d: "denseArgIndex ?cs" and l: "length rhs = length ?cs"
    by auto
  have "distinct (requestedSlots ?cs)" using d by (simp add: denseArgIndex_def)
  then have "length (requestedSlots ?cs) = card (set (requestedSlots ?cs))"
    by (simp add: distinct_card)
  also have "set (requestedSlots ?cs) = ArgIndex ` {c \<in> set ?cs. 0 \<le> ArgIndex c}"
    by (auto simp: requestedSlots_def)
  finally have n: "length (filterArgv ?cs rhs) = card (ArgIndex ` {c \<in> set ?cs. 0 \<le> ArgIndex c})"
    using filterArgv_dense(1) [OF l d] by simp
  have p: "\<forall>i<length ?cs. 0 \<le> ArgIndex (?cs ! i) \<longrightarrow>
             filterArgv ?cs rhs ! nat (ArgIndex (?cs ! i)) = rhs ! i"
    using filterArgv_dense(2) [OF l d] by blast
  from b n p show "bestIndex draft = Inr plan \<and>
     fst (dispatchFilter plan rhs) = IdxNum plan \<and>
     fst (snd (dispatchFilter plan rhs)) = IdxStr plan \<and>
     length (snd (snd (dispatchFilter plan rhs)))
       = card (ArgIndex ` {c \<in> set (Constraints plan). 0 \<le> ArgIndex c}) \<and>
     (\<forall>i<length (Constraints plan). 0 \<le> ArgIndex (Constraints plan ! i) \<longrightarrow>
         snd (snd (dispatchFilter plan rhs)) ! nat (ArgIndex (Constraints plan ! i)) = rhs ! i)"
    by (simp add: dispatchFilter_def)
qed

text \<open>
  The query of \<open>TestVtabConstraintArgIndex\<close>, where \<open>Filter\<close> receives 10 and 20 in this order,
  and a plan of the CSV provider with its \<open>IdxNum\<close> 1 and \<open>IdxStr\<close>.
\<close>

theorem C4_filter_receives_plan_and_arguments_witness:
  "dispatchBestIndex argIndexTable_BestIndex query_c1_c2 =
     Inr \<lparr>Constraints = [\<lparr>Column = 0, Op = OpEQ, Usable = True, ArgIndex = 0, Omit = False\<rparr>,
                         \<lparr>Column = 1, Op = OpEQ, Usable = True, ArgIndex = 1, Omit = False\<rparr>],
          IdxNum = 0, IdxStr = []\<rparr> \<and>
   dispatchFilter
     \<lparr>Constraints = [\<lparr>Column = 0, Op = OpEQ, Usable = True, ArgIndex = 0, Omit = False\<rparr>,
                     \<lparr>Column = 1, Op = OpEQ, Usable = True, ArgIndex = 1, Omit = False\<rparr>],
      IdxNum = 0, IdxStr = []\<rparr> [Integer 10, Integer 20]
     = (0, [], [Integer 10, Integer 20]) \<and>
   dispatchBestIndex (csvTable_BestIndex people) query_email_name =
     Inr \<lparr>Constraints = [\<lparr>Column = 1, Op = OpGT, Usable = True, ArgIndex = -1, Omit = False\<rparr>,
                         \<lparr>Column = 0, Op = OpEQ, Usable = True, ArgIndex = 0, Omit = True\<rparr>],
          IdxNum = 1, IdxStr = ''0''\<rparr> \<and>
   dispatchFilter
     \<lparr>Constraints = [\<lparr>Column = 1, Op = OpGT, Usable = True, ArgIndex = -1, Omit = False\<rparr>,
                     \<lparr>Column = 0, Op = OpEQ, Usable = True, ArgIndex = 0, Omit = True\<rparr>],
      IdxNum = 1, IdxStr = ''0''\<rparr> [Text ''a'', Text ''Bob'']
     = (1, ''0'', [Text ''Bob''])"
  using C4_filter_receives_plan_and_arguments
      [of argIndexTable_BestIndex query_c1_c2
          "\<lparr>Constraints = [\<lparr>Column = 0, Op = OpEQ, Usable = True, ArgIndex = 0, Omit = False\<rparr>,
                         \<lparr>Column = 1, Op = OpEQ, Usable = True, ArgIndex = 1, Omit = False\<rparr>],
          IdxNum = 0, IdxStr = []\<rparr>" "[Integer 10, Integer 20]"]
    C4_filter_receives_plan_and_arguments
      [of "csvTable_BestIndex people" query_email_name
          "\<lparr>Constraints = [\<lparr>Column = 1, Op = OpGT, Usable = True, ArgIndex = -1, Omit = False\<rparr>,
                         \<lparr>Column = 0, Op = OpEQ, Usable = True, ArgIndex = 0, Omit = True\<rparr>],
          IdxNum = 1, IdxStr = ''0''\<rparr>" "[Text ''a'', Text ''Bob'']"]
  unfolding argIndex_dispatch csv_dispatch
  by (simp add: dispatchFilter_def argIndex_argv csv_argv)

subsection \<open>\<open>Update\<close>\<close>

lemma update_rows_absent:
  "\<forall>r\<in>set rs. id_f r \<noteq> old \<Longrightarrow>
     update_rows rs old cols new = Inl (Err (''row '' @ showInt (sint old) @ '' not found''))"
  by (induction rs) auto

lemma update_rows_first:
  "i < length rs \<Longrightarrow> id_f (rs ! i) = old \<Longrightarrow> \<forall>j<i. id_f (rs ! j) \<noteq> old \<Longrightarrow>
     update_rows rs old (c # cs) new =
       Inr (rs[i := \<lparr>id_f = rowidAfterUpdate old new, val_f = asString c\<rparr>])"
proof (induction rs arbitrary: i)
  case Nil
  then show ?case by simp
next
  case (Cons r rs)
  show ?case
  proof (cases i)
    case 0
    with Cons.prems show ?thesis
      by (simp add: rowidAfterUpdate_def split: option.splits)
  next
    case (Suc k)
    with Cons.prems have "id_f r \<noteq> old" by auto
    moreover have "update_rows rs old (c # cs) new =
       Inr (rs[k := \<lparr>id_f = rowidAfterUpdate old new, val_f = asString c\<rparr>])"
      using Cons.prems Suc by (intro Cons.IH) auto
    ultimately show ?thesis using Suc by simp
  qed
qed

lemma sint_pred_neq: "(n::int64) \<noteq> old \<Longrightarrow> sint (n - 1) \<noteq> sint (old - 1)"
proof
  assume "n \<noteq> old" and "sint (n - 1) = sint (old - 1)"
  then have "n - 1 = old - 1" by (simp add: signed_word_eqI)
  then have "n = old" by simp
  with \<open>n \<noteq> old\<close> show False by simp
qed

lemma rs44: "runeString 44 = '',''"
  by (simp add: runeString_def char_of_def)

lemma plainWrite_people: "plainWrite 44 (t_cols people # t_rows people) = Inr people_csv"
  by (simp add: plainWrite_def plainDelim_def people_def people_csv_def rs44)

lemma people_rows: "t_rows people = [[''Alice'', ''alice@example.com''], [''Bob'', ''bob@example.com'']]"
  by (simp add: people_def)

lemma Al_strings:
  "valuesToStrings (\<lambda>x. []) [Text ''Al'', Text ''al@example.com''] (length (t_cols people))
     = [''Al'', ''al@example.com'']"
  by (simp add: valuesToStrings_def people_def)

lemma flush_people_ok: "fst (flush plainWrite (people\<lparr>t_rows := rs\<rparr>) fs) = None"
  by (simp add: flush_def plainWrite_def plainDelim_def people_def Let_def)

text \<open>
  Claim C6 as stated fails for \<open>csvTable\<close>. Updating rowid 1 with the new rowid 2 moves Bob's
  row, which was not the one located, from rowid 2 to rowid 1. Updating rowid 1 with the new
  rowid 5, which is given, not zero and not 1, leaves the updated row at rowid 1.
\<close>

theorem C6_csv_update_relocation_counterexample:
  "t_rows (fst (snd (csvTable_Update (\<lambda>x. []) plainWrite people disk 1
                       [Text ''Al'', Text ''al@example.com''] (Some 2))))
     = [[''Bob'', ''bob@example.com''], [''Al'', ''al@example.com'']] \<and>
   fst (csvTable_Update (\<lambda>x. []) plainWrite people disk 1
                       [Text ''Al'', Text ''al@example.com''] (Some 2)) = None \<and>
   t_rows (fst (snd (csvTable_Update (\<lambda>x. []) plainWrite people disk 1
                       [Text ''Al'', Text ''al@example.com''] (Some 5))))
     = [[''Al'', ''al@example.com''], [''Bob'', ''bob@example.com'']] \<and>
   fst (csvTable_Update (\<lambda>x. []) plainWrite people disk 1
                       [Text ''Al'', Text ''al@example.com''] (Some 5)) = None"
  by (simp add: csvTable_Update_def Let_def split_beta Al_strings flush_people_ok people_rows)

text \<open>
  Claim C6, amended. \<open>updaterTableX.Update\<close> fails with "row not found" when no row has the
  old rowid; otherwise it gives the first such row the new value, and the rowid of every row
  stays as it was unless a non-nil, non-zero new rowid other than the old one is given, which
  then becomes the rowid of that row alone. \<open>csvTable.Update\<close> takes the rowid as the 1-based
  position: it fails with "out of range" for a position outside the table; otherwise it
  replaces the row at that position, and every row keeps its position unless such a new
  rowid is given and is itself a position of the table, in which case the updated row and
  the row at the new position change places; a new rowid outside the table moves nothing.
\<close>

theorem C6_update_in_place:
  "((\<forall>r\<in>set (u_rows t). id_f r \<noteq> old) \<longrightarrow>
       updaterTableX_Update t old cols new
         = Inl (Err (''row '' @ showInt (sint old) @ '' not found''))) \<and>
   (i < length (u_rows t) \<and> id_f (u_rows t ! i) = old \<and> (\<forall>j<i. id_f (u_rows t ! j) \<noteq> old) \<longrightarrow>
       updaterTableX_Update t old (c # cs) new
         = Inr (t\<lparr>u_rows := (u_rows t)[i := \<lparr>id_f = rowidAfterUpdate old new,
                                             val_f = asString c\<rparr>]\<rparr>)) \<and>
   (sint (old - 1) < 0 \<or> int (length (t_rows ct)) \<le> sint (old - 1) \<longrightarrow>
       csvTable_Update ff wr ct fs old cols new
         = (Some (Err (''csv: rowid '' @ showInt (sint old) @ '' out of range'')), ct, fs)) \<and>
   (0 \<le> sint (old - 1) \<and> sint (old - 1) < int (length (t_rows ct)) \<longrightarrow>
       fst (snd (csvTable_Update ff wr ct fs old cols new))
         = ct\<lparr>t_rows :=
               (if csvSwaps ct old new
                then (t_rows ct)[nat (sint (old - 1)) := t_rows ct ! nat (sint (the new - 1)),
                                 nat (sint (the new - 1)) := valuesToStrings ff cols (length (t_cols ct))]
                else (t_rows ct)[nat (sint (old - 1)) := valuesToStrings ff cols (length (t_cols ct))])\<rparr>)"
proof (intro conjI impI)
  assume "\<forall>r\<in>set (u_rows t). id_f r \<noteq> old"
  then show "updaterTableX_Update t old cols new
         = Inl (Err (''row '' @ showInt (sint old) @ '' not found''))"
    by (simp add: updaterTableX_Update_def update_rows_absent)
next
  assume "i < length (u_rows t) \<and> id_f (u_rows t ! i) = old \<and> (\<forall>j<i. id_f (u_rows t ! j) \<noteq> old)"
  then show "updaterTableX_Update t old (c # cs) new
         = Inr (t\<lparr>u_rows := (u_rows t)[i := \<lparr>id_f = rowidAfterUpdate old new,
                                             val_f = asString c\<rparr>]\<rparr>)"
    using update_rows_first [of i "u_rows t" old c cs new]
    by (simp add: updaterTableX_Update_def)
next
  assume "sint (old - 1) < 0 \<or> int (length (t_rows ct)) \<le> sint (old - 1)"
  then show "csvTable_Update ff wr ct fs old cols new
         = (Some (Err (''csv: rowid '' @ showInt (sint old) @ '' out of range'')), ct, fs)"
    by (auto simp: csvTable_Update_def Let_def)
next
  assume a: "0 \<le> sint (old - 1) \<and> sint (old - 1) < int (length (t_rows ct))"
  let ?idx = "nat (sint (old - 1))"
  let ?rec = "valuesToStrings ff cols (length (t_cols ct))"
  show "fst (snd (csvTable_Update ff wr ct fs old cols new))
         = ct\<lparr>t_rows :=
               (if csvSwaps ct old new
                then (t_rows ct)[?idx := t_rows ct ! nat (sint (the new - 1)),
                                 nat (sint (the new - 1)) := ?rec]
                else (t_rows ct)[?idx := ?rec])\<rparr>"
  proof (cases "csvSwaps ct old new")
    case False
    then show ?thesis using a
      by (auto simp: csvTable_Update_def Let_def csvSwaps_def split: option.splits prod.splits)
  next
    case True
    then obtain n where n: "new = Some n" "n \<noteq> 0" "n \<noteq> old" "0 \<le> sint (n - 1)"
      "sint (n - 1) < int (length (t_rows ct))"
      by (auto simp: csvSwaps_def split: option.splits)
    let ?nidx = "nat (sint (n - 1))"
    have ne: "?nidx \<noteq> ?idx" using n(3,4) a sint_pred_neq [of n old] by auto
    have lt: "?idx < length (t_rows ct)" "?nidx < length (t_rows ct)" using a n by auto
    have "((t_rows ct)[?idx := ?rec])[?idx := (t_rows ct)[?idx := ?rec] ! ?nidx,
                                     ?nidx := (t_rows ct)[?idx := ?rec] ! ?idx]
          = (t_rows ct)[?idx := t_rows ct ! ?nidx, ?nidx := ?rec]"
      using ne lt by simp
    then show ?thesis using a n True
      by (auto simp: csvTable_Update_def Let_def split: prod.splits)
  qed
qed

lemma Bobby_strings:
  "valuesToStrings (\<lambda>x. []) [Text ''Bobby''] (length (t_cols people)) = [''Bobby'', []]"
  by (simp add: valuesToStrings_def people_def)

text \<open>
  The scenario of the specification (Bob becomes Bobby, the rowids stay 1, 2, 3), a missing
  rowid, a relocation, and the same calls on the CSV table.
\<close>

theorem C6_update_in_place_witness:
  "updaterTableX_Update abc 9 [Text ''Bobby''] None = Inl (Err ''row 9 not found'') \<and>
   updaterTableX_Update abc 2 [Text ''Bobby''] None
     = Inr \<lparr>u_rows = [\<lparr>id_f = 1, val_f = ''Alice''\<rparr>, \<lparr>id_f = 2, val_f = ''Bobby''\<rparr>,
                      \<lparr>id_f = 3, val_f = ''Carol''\<rparr>], u_nextID = 4\<rparr> \<and>
   updaterTableX_Update abc 2 [Text ''Bobby''] (Some 7)
     = Inr \<lparr>u_rows = [\<lparr>id_f = 1, val_f = ''Alice''\<rparr>, \<lparr>id_f = 7, val_f = ''Bobby''\<rparr>,
                      \<lparr>id_f = 3, val_f = ''Carol''\<rparr>], u_nextID = 4\<rparr> \<and>
   csvTable_Update (\<lambda>x. []) plainWrite people disk 9 [Text ''Bobby''] None
     = (Some (Err ''csv: rowid 9 out of range''), people, disk) \<and>
   fst (snd (csvTable_Update (\<lambda>x. []) plainWrite people disk 2 [Text ''Bobby''] None))
     = people\<lparr>t_rows := [[''Alice'', ''alice@example.com''], [''Bobby'', []]]\<rparr> \<and>
   fst (snd (csvTable_Update (\<lambda>x. []) plainWrite people disk 2 [Text ''Bobby''] (Some 7)))
     = people\<lparr>t_rows := [[''Alice'', ''alice@example.com''], [''Bobby'', []]]\<rparr> \<and>
   fst (snd (csvTable_Update (\<lambda>x. []) plainWrite people disk 2 [Text ''Bobby''] (Some 1)))
     = people\<lparr>t_rows := [[''Bobby'', []], [''Alice'', ''alice@example.com'']]\<rparr>"
proof -
  have s9: "showInt 9 = ''9''"
    by (simp add: showInt_def showNat_lt10)
  have abc_rows: "u_rows abc = [\<lparr>id_f = 1, val_f = ''Alice''\<rparr>, \<lparr>id_f = 2, val_f = ''Bob''\<rparr>,
                    \<lparr>id_f = 3, val_f = ''Carol''\<rparr>]"
    by (simp add: abc_def)
  have a: "\<forall>r\<in>set (u_rows abc). id_f r \<noteq> 9" by (simp add: abc_rows)
  have b: "1 < length (u_rows abc) \<and> id_f (u_rows abc ! 1) = 2 \<and> (\<forall>j<1. id_f (u_rows abc ! j) \<noteq> 2)"
    by (simp add: abc_rows)
  have sw: "\<not> csvSwaps people 2 None" "\<not> csvSwaps people 2 (Some 7)" "csvSwaps people 2 (Some 1)"
    by (simp_all add: csvSwaps_def people_rows)
  show ?thesis
    using C6_update_in_place [where t = abc and old = 9 and cols = "[Text ''Bobby'']" and new = None
           and ct = people and ff = "\<lambda>x. []" and wr = plainWrite and fs = disk]
      C6_update_in_place [where t = abc and old = 2 and c = "Text ''Bobby''" and cs = "[]"
           and cols = "[Text ''Bobby'']" and new = None and i = 1
           and ct = people and ff = "\<lambda>x. []" and wr = plainWrite and fs = disk]
      C6_update_in_place [where t = abc and old = 2 and c = "Text ''Bobby''" and cs = "[]"
           and cols = "[Text ''Bobby'']" and new = "Some 7" and i = 1
           and ct = people and ff = "\<lambda>x. []" and wr = plainWrite and fs = disk]
      C6_update_in_place [where t = abc and old = 2 and c = "Text ''Bobby''" and cs = "[]"
           and cols = "[Text ''Bobby'']" and new = "Some 1" and i = 1
           and ct = people and ff = "\<lambda>x. []" and wr = plainWrite and fs = disk]
    using a b sw
    by (simp add: s9 people_rows Bobby_strings rowidAfterUpdate_def abc_def)
qed

subsection \<open>The UTF-8 text of a code point\<close>
















subsection \<open>The reader on the text of the writer\<close>























subsection \<open>The quote character of \<open>flush\<close> and \<open>loadCSV\<close>\<close>

















subsection \<open>Runs of the writer and the reader\<close>

















text \<open>An error of the first \<open>Read\<close> comes back behind \<open>csv: read header:\<close>.\<close>

lemma load_header_error:
  "loadCSV Reader_ReadAll [''x.csv'' \<mapsto> []] ''x.csv'' 44 True 34
     = Inl (Err ''csv: read header: EOF'')"
  "loadCSV Reader_ReadAll [''x.csv'' \<mapsto> [CHR ''a'', dq, CHR ''b'']] ''x.csv'' 44 True 34
     = Inl (Err (''csv: read header: bare '' @ [dq] @ '' in non-quoted-field''))"
  "loadCSV Reader_ReadAll [''x.csv'' \<mapsto> ''a,b''] ''x.csv'' 34 True 34
     = Inl (Err ''csv: read header: csv: invalid field or comment delimiter'')"
  "loadCSV Reader_ReadAll [''x.csv'' \<mapsto> ''h'' @ [nl, CHR ''a'', dq, CHR ''b'']] ''x.csv'' 44 True 34
     = Inl ErrBareQuote"
  by (simp_all add: loadCSV_def Reader_ReadAll_def validDelim_def rs44 ErrBareQuote_def
      errInvalidDelim_def dq_def cr_def nl_def)


















subsection \<open>Reattaching the CSV table\<close>

























end
